theory Spec2Isabelle
  imports Main "HOL-Library.Word"
begin

unbundle bit_operations_syntax

section \<open>The ODBC backend of the SMS daemon (smsd/services/odbc.c)\<close>

text \<open>
  The adapter translates the generic SQL backend operations of the daemon into calls of
  the ODBC call-level API. Everything the file does is control flow around those calls,
  so the model makes the surroundings explicit:
  \<^item> the driver manager is a deterministic function from the history of API calls (most
    recent first) to the reply of the latest call;
  \<^item> the C heap is a list of blocks, an address being an index into it;
  \<^item> the log sink is the list of entries written so far;
  \<^item> what the C standard leaves undefined (an access outside \<open>retstr\<close>, a write through
    a null pointer, freeing a block twice) is the outcome \<open>Undefined\<close>, and a call that
    never comes back is the outcome \<open>Diverges\<close>.
\<close>

subsection \<open>ODBC types and constants (from the system headers sql.h, sqlext.h)\<close>

type_synonym SQLRETURN = "16 word"
type_synonym SQLSMALLINT = "16 word"
type_synonym SQLUSMALLINT = "16 word"
type_synonym SQLINTEGER = "32 word"
type_synonym SQLLEN = "64 word"
type_synonym SQLHANDLE = nat

definition SQL_SUCCESS :: SQLRETURN where
  "SQL_SUCCESS = 0"

definition SQL_SUCCESS_WITH_INFO :: SQLRETURN where
  "SQL_SUCCESS_WITH_INFO = 1"

definition SQL_NO_DATA :: SQLRETURN where
  "SQL_NO_DATA = 100"

definition SQL_ERROR :: SQLRETURN where
  "SQL_ERROR = - 1"

definition SQL_SUCCEEDED :: "SQLRETURN \<Rightarrow> bool" where
  \<comment> \<open>\<^verbatim>\<open>#define SQL_SUCCEEDED(rc) (((rc)&(~1))==0)\<close>\<close>
  "SQL_SUCCEEDED rc = (rc AND NOT 1 = 0)"

definition SQL_NULL_DATA :: SQLLEN where
  "SQL_NULL_DATA = - 1"

definition SQL_NULL_HANDLE :: SQLHANDLE where
  "SQL_NULL_HANDLE = 0"

datatype handle_type = SQL_HANDLE_ENV | SQL_HANDLE_DBC | SQL_HANDLE_STMT

datatype c_type = SQL_C_SLONG | SQL_C_TYPE_TIMESTAMP | SQL_C_CHAR

record SQL_TIMESTAMP_STRUCT =
  year :: SQLSMALLINT
  month :: SQLUSMALLINT
  day :: SQLUSMALLINT
  hour :: SQLUSMALLINT
  minute :: SQLUSMALLINT
  second :: SQLUSMALLINT
  fraction :: "32 word"

text \<open>
  One constructor per API function the file calls, with the arguments the file passes:
  \<open>SQLGetData\<close> carries the statement, the column number, the C type asked for and the
  buffer length; \<open>SQLGetDiagRec\<close> the handle and the record number.
\<close>

datatype odbc_call =
    SQLAllocHandle handle_type SQLHANDLE
  | SQLSetEnvAttr SQLHANDLE
  | SQLConnect SQLHANDLE string string string
  | SQLDisconnect SQLHANDLE
  | SQLFreeHandle handle_type SQLHANDLE
  | SQLExecDirect SQLHANDLE string
  | SQLFetch SQLHANDLE
  | SQLGetData SQLHANDLE SQLUSMALLINT c_type SQLLEN
  | SQLRowCount SQLHANDLE
  | SQLGetDiagRec handle_type SQLHANDLE SQLSMALLINT

text \<open>
  The reply of a call: the status and whatever the call writes through its output
  pointers. Each operation reads only the fields its call fills in.
\<close>

record odbc_reply =
  ret :: SQLRETURN
  out_handle :: SQLHANDLE
  out_long :: SQLINTEGER
  out_timestamp :: SQL_TIMESTAMP_STRUCT
  out_len :: SQLLEN
  out_text :: string
  out_state :: string
  out_native :: SQLINTEGER

subsection \<open>What the file uses and does not define\<close>

record tm =
  tm_sec :: int
  tm_min :: int
  tm_hour :: int
  tm_mday :: int
  tm_mon :: int
  tm_year :: int
  tm_isdst :: int

text \<open>
  \<open>MAX_RETURN_STRINGS\<close> is the macro \<^verbatim>\<open>SMSD_ODBC_MAX_RETURN_STRINGS\<close> of core.h;
  \<open>driver\<close> is the ODBC driver manager; \<open>malloc_ok\<close> tells whether the allocator grants
  a request (the number of blocks handed out so far, the size asked for);
  \<open>mktime\<close> is the C library's conversion of a broken-down local time;
  \<open>daylight\<close> is the C library's global of that name when the build has
  \<^verbatim>\<open>HAVE_DAYLIGHT\<close>, and \<open>None\<close> when it has not;
  \<open>GSM_StringToBool\<close> is the boolean parser of the surrounding library, called
  with a pointer that may be null.
\<close>

record externals =
  MAX_RETURN_STRINGS :: nat
  driver :: "odbc_call list \<Rightarrow> odbc_reply"
  malloc_ok :: "nat \<Rightarrow> nat \<Rightarrow> bool"
  mktime :: "tm \<Rightarrow> int"
  daylight :: "int option"
  GSM_StringToBool :: "string option \<Rightarrow> bool"

subsection \<open>State\<close>

datatype severity = DEBUG_ERROR | DEBUG_INFO

text \<open>
  A log entry keeps the format of the message and its arguments:
  \<^item> \<open>Log_Diagnostics m\<close>: \<^verbatim>\<open>"%s, ODBC diagnostics:"\<close>
  \<^item> \<open>Log_DiagRec state i native text\<close>: \<^verbatim>\<open>"%s:%ld:%ld:%s\n"\<close>
  \<^item> \<open>Log_TooManyFields f\<close>: \<^verbatim>\<open>"Field %d returning NULL, too many fields!"\<close>
  \<^item> \<open>Log_FieldNull f\<close>: \<^verbatim>\<open>"Field %d returning NULL"\<close>
  \<^item> \<open>Log_AllocFailed f n\<close>:
    \<^verbatim>\<open>"Field %d returning NULL, failed to allocate %ld bytes of memory"\<close>
  \<^item> \<open>Log_FieldString f s\<close>: \<^verbatim>\<open>"Field %d returning string \"%s\""\<close>
\<close>

datatype log_entry =
    Log_Diagnostics string
  | Log_DiagRec string SQLINTEGER SQLINTEGER string
  | Log_TooManyFields "32 word"
  | Log_FieldNull "32 word"
  | Log_AllocFailed "32 word" "64 word"
  | Log_FieldString "32 word" string

text \<open>
  A heap block is its bytes; its length is the size it was allocated with. A pointer is
  null (\<open>None\<close>) or the address of a block.
\<close>

type_synonym pointer = "nat option"

record GSM_SMSDConfig =
  host :: string
  user :: string
  password :: string
  env :: SQLHANDLE
  dbc :: SQLHANDLE
  retstr :: "pointer list"

record world =
  Config :: GSM_SMSDConfig
  heap :: "string option list"
  logs :: "(severity \<times> log_entry) list"
  calls :: "odbc_call list"

record SQL_result =
  odbc :: SQLHANDLE

datatype SQL_Error = SQL_OK | SQL_FAIL

datatype 'a outcome = Returns 'a | Undefined | Diverges

definition SMSD_Log :: "severity \<Rightarrow> log_entry \<Rightarrow> world \<Rightarrow> world" where
  "SMSD_Log sev e s = s\<lparr>logs := logs s @ [(sev, e)]\<rparr>"

definition record_call :: "odbc_call \<Rightarrow> world \<Rightarrow> world" where
  "record_call c s = s\<lparr>calls := c # calls s\<rparr>"

definition reply :: "externals \<Rightarrow> odbc_call \<Rightarrow> world \<Rightarrow> odbc_reply" where
  "reply X c s = driver X (c # calls s)"

subsection \<open>SMSDODBC_LogError\<close>

text \<open>
  The \<^verbatim>\<open>do ... while (ret == SQL_SUCCESS)\<close> loop: \<open>i\<close> is the counter before
  \<^verbatim>\<open>++i\<close>; the record number reaches the API as a SQLSMALLINT; \<open>text\<close> has room
  for 255 characters. The loop ends when the driver answers anything but SQL_SUCCESS,
  which is up to the driver.
\<close>

partial_function (option) LogError_loop ::
  "externals \<Rightarrow> handle_type \<Rightarrow> SQLHANDLE \<Rightarrow> SQLINTEGER \<Rightarrow> world \<Rightarrow> world option" where
  [code]: "LogError_loop X handle_type h i s =
     (let c = SQLGetDiagRec handle_type h (ucast (i + 1));
          r = reply X c s;
          s1 = record_call c s;
          s2 = (if SQL_SUCCEEDED (ret r)
                then SMSD_Log DEBUG_ERROR
                       (Log_DiagRec (out_state r) (i + 1) (out_native r) (take 255 (out_text r))) s1
                else s1)
      in if ret r = SQL_SUCCESS then LogError_loop X handle_type h (i + 1) s2 else Some s2)"

definition SMSDODBC_LogError ::
  "externals \<Rightarrow> handle_type \<Rightarrow> SQLHANDLE \<Rightarrow> string \<Rightarrow> world \<Rightarrow> world option" where
  "SMSDODBC_LogError X handle_type h message s =
     LogError_loop X handle_type h 0 (SMSD_Log DEBUG_ERROR (Log_Diagnostics message) s)"

text \<open>The two lines \<^verbatim>\<open>SMSDODBC_LogError(...); return v;\<close> of every failure branch.\<close>

definition log_and_return ::
  "externals \<Rightarrow> handle_type \<Rightarrow> SQLHANDLE \<Rightarrow> string \<Rightarrow> 'a \<Rightarrow> world \<Rightarrow> ('a \<times> world) outcome" where
  "log_and_return X handle_type h message v s =
     (case SMSDODBC_LogError X handle_type h message s of
        None \<Rightarrow> Diverges
      | Some s1 \<Rightarrow> Returns (v, s1))"

subsection \<open>SMSDODBC_GetNumber\<close>

definition SMSDODBC_GetNumber ::
  "externals \<Rightarrow> SQL_result \<Rightarrow> 32 word \<Rightarrow> world \<Rightarrow> (64 word \<times> world) outcome" where
  "SMSDODBC_GetNumber X res field s =
     (let c = SQLGetData (odbc res) (ucast (field + 1)) SQL_C_SLONG 0;
          r = reply X c s;
          s1 = record_call c s
      in if \<not> SQL_SUCCEEDED (ret r) then
           log_and_return X SQL_HANDLE_STMT (odbc res) ''SQLGetData(long) failed'' (- 1) s1
         else Returns (scast (out_long r), s1))"

subsection \<open>SMSDODBC_GetDate\<close>

text \<open>
  \<^verbatim>\<open>tzset()\<close> brings the C library's time-zone globals up to date; \<open>daylight X\<close> is
  the value read afterwards. The fields of \<^verbatim>\<open>timestruct\<close> that the function leaves
  unset (\<^verbatim>\<open>tm_wday\<close>, \<^verbatim>\<open>tm_yday\<close>) are ignored by \<^verbatim>\<open>mktime\<close>.
\<close>

definition SMSDODBC_GetDate ::
  "externals \<Rightarrow> SQL_result \<Rightarrow> 32 word \<Rightarrow> world \<Rightarrow> (int \<times> world) outcome" where
  "SMSDODBC_GetDate X res field s =
     (let c = SQLGetData (odbc res) (ucast (field + 1)) SQL_C_TYPE_TIMESTAMP 0;
          r = reply X c s;
          s1 = record_call c s
      in if \<not> SQL_SUCCEEDED (ret r) then
           log_and_return X SQL_HANDLE_STMT (odbc res) ''SQLGetData(timestamp) failed'' (- 1) s1
         else
           let sqltime = out_timestamp r;
               timestruct = \<lparr>
                 tm_sec = uint (second sqltime),
                 tm_min = uint (minute sqltime),
                 tm_hour = uint (hour sqltime),
                 tm_mday = uint (day sqltime),
                 tm_mon = uint (month sqltime),
                 tm_year = sint (year sqltime),
                 tm_isdst = (case daylight X of Some d \<Rightarrow> d | None \<Rightarrow> - 1) \<rparr>
           in Returns (mktime X timestruct, s1))"

subsection \<open>The allocator\<close>

definition NUL :: char where
  "NUL = CHR 0x00"

definition cstring :: "string \<Rightarrow> string" where
  \<comment> \<open>the C string stored at the start of a byte sequence\<close>
  "cstring bs = takeWhile (\<lambda>c. c \<noteq> NUL) bs"

definition strlen :: "string \<Rightarrow> nat" where
  "strlen bs = length (cstring bs)"

definition block_at :: "world \<Rightarrow> nat \<Rightarrow> string option" where
  \<comment> \<open>the block at an address, if the address holds one\<close>
  "block_at s a = (if a < length (heap s) then heap s ! a else None)"

definition allocated :: "world \<Rightarrow> nat \<Rightarrow> bool" where
  "allocated s a = (block_at s a \<noteq> None)"

text \<open>
  \<open>c_malloc\<close> hands out the next address or fails. \<open>c_realloc\<close> fails and leaves the
  old block alone, or moves the contents to a new block and releases the old one, after
  which the old address must not be used. \<open>c_free\<close> releases a block. Reallocating or
  freeing an address that holds no block is undefined. A fresh byte is indeterminate in
  C; here it is NUL.
\<close>

definition c_malloc :: "externals \<Rightarrow> nat \<Rightarrow> world \<Rightarrow> pointer \<times> world" where
  "c_malloc X n s =
     (if malloc_ok X (length (heap s)) n
      then (Some (length (heap s)), s\<lparr>heap := heap s @ [Some (replicate n NUL)]\<rparr>)
      else (None, s))"

definition c_realloc :: "externals \<Rightarrow> nat \<Rightarrow> nat \<Rightarrow> world \<Rightarrow> (pointer \<times> world) outcome" where
  "c_realloc X a n s =
     (if \<not> allocated s a then Undefined
      else if malloc_ok X (length (heap s)) n
      then (case block_at s a of
              None \<Rightarrow> Undefined
            | Some old \<Rightarrow>
                Returns (Some (length (heap s)),
                  s\<lparr>heap := (heap s)[a := None] @ [Some (take n old @ replicate (n - length old) NUL)]\<rparr>))
      else Returns (None, s))"

definition c_free :: "nat \<Rightarrow> world \<Rightarrow> world outcome" where
  "c_free a s = (if allocated s a then Returns (s\<lparr>heap := (heap s)[a := None]\<rparr>) else Undefined)"

definition set_retstr :: "nat \<Rightarrow> pointer \<Rightarrow> world \<Rightarrow> world" where
  \<comment> \<open>\<^verbatim>\<open>Config->conn.odbc.retstr[field] = p\<close>, for a field inside the array\<close>
  "set_retstr field p s = s\<lparr>Config := (Config s)\<lparr>retstr := (retstr (Config s))[field := p]\<rparr>\<rparr>"

definition string_at :: "world \<Rightarrow> pointer \<Rightarrow> string option" where
  \<comment> \<open>the C string a pointer leads to\<close>
  "string_at s p =
     (case p of
        None \<Rightarrow> None
      | Some a \<Rightarrow> map_option cstring (block_at s a))"

subsection \<open>SMSDODBC_GetString\<close>

definition write_cstring :: "string \<Rightarrow> string \<Rightarrow> string" where
  \<comment> \<open>the driver copies as much of the text as fits and terminates it\<close>
  "write_cstring txt buf =
     (if buf = [] then []
      else let t = take (length buf - 1) (cstring txt)
           in t @ [NUL] @ drop (length t + 1) buf)"

definition GetString_fetch ::
  "externals \<Rightarrow> SQL_result \<Rightarrow> 32 word \<Rightarrow> SQLLEN \<Rightarrow> nat \<Rightarrow> world \<Rightarrow> (pointer \<times> world) outcome" where
  \<comment> \<open>\<^verbatim>\<open>/* Actually grab result from database */\<close>, the buffer being at address \<open>a\<close>\<close>
  "GetString_fetch X res field size' a s =
     (let c = SQLGetData (odbc res) (ucast (field + 1)) SQL_C_CHAR (size' + 1);
          r = reply X c s;
          s1 = record_call c s
      in if \<not> SQL_SUCCEEDED (ret r) then
           log_and_return X SQL_HANDLE_STMT (odbc res) ''SQLGetData(string) failed'' None s1
         else
           (case block_at s1 a of
              None \<Rightarrow> Undefined
            | Some buf \<Rightarrow>
                let buf1 = write_cstring (out_text r) buf;
                    s2 = s1\<lparr>heap := (heap s1)[a := Some buf1]\<rparr>
                in Returns (Some a, SMSD_Log DEBUG_INFO (Log_FieldString field (cstring buf1)) s2)))"

definition GetString_allocate ::
  "externals \<Rightarrow> 32 word \<Rightarrow> SQLLEN \<Rightarrow> world \<Rightarrow> (pointer \<times> world) outcome" where
  \<comment> \<open>\<^verbatim>\<open>/* Allocate string */\<close>: the new value of the slot\<close>
  "GetString_allocate X field size' s =
     (if \<not> unat field < length (retstr (Config s)) then Undefined
      else
        (case retstr (Config s) ! unat field of
           None \<Rightarrow>
             (case c_malloc X (unat (size' + 1)) s of
                (p, s1) \<Rightarrow> Returns (p, set_retstr (unat field) p s1))
         | Some a \<Rightarrow>
             (case c_realloc X a (unat (size' + 1)) s of
                Returns (p, s1) \<Rightarrow> Returns (p, set_retstr (unat field) p s1)
              | Undefined \<Rightarrow> Undefined
              | Diverges \<Rightarrow> Diverges)))"

definition SMSDODBC_GetString ::
  "externals \<Rightarrow> SQL_result \<Rightarrow> 32 word \<Rightarrow> world \<Rightarrow> (pointer \<times> world) outcome" where
  "SMSDODBC_GetString X res field s =
     (if unat field > MAX_RETURN_STRINGS X then
        Returns (None, SMSD_Log DEBUG_ERROR (Log_TooManyFields field) s)
      else
        let c = SQLGetData (odbc res) (ucast (field + 1)) SQL_C_CHAR 0;
            r = reply X c s;
            s1 = record_call c s
        in if \<not> SQL_SUCCEEDED (ret r) then
             log_and_return X SQL_HANDLE_STMT (odbc res) ''SQLGetData(string,NULL) failed'' None s1
           else
             let size' = out_len r
             in if size' = SQL_NULL_DATA then
                  Returns (None, SMSD_Log DEBUG_INFO (Log_FieldNull field) s1)
                else
                  (case GetString_allocate X field size' s1 of
                     Returns (None, s2) \<Rightarrow>
                       Returns (None, SMSD_Log DEBUG_ERROR (Log_AllocFailed field (size' + 1)) s2)
                   | Returns (Some a, s2) \<Rightarrow> GetString_fetch X res field size' a s2
                   | Undefined \<Rightarrow> Undefined
                   | Diverges \<Rightarrow> Diverges))"

subsection \<open>SMSDODBC_GetBool\<close>

definition SMSDODBC_GetBool ::
  "externals \<Rightarrow> SQL_result \<Rightarrow> 32 word \<Rightarrow> world \<Rightarrow> (bool \<times> world) outcome" where
  "SMSDODBC_GetBool X res field s =
     (case SMSDODBC_GetNumber X res field s of
        Returns (intval, s1) \<Rightarrow>
          if intval = - 1 then
            (case SMSDODBC_GetString X res field s1 of
               Returns (charval, s2) \<Rightarrow> Returns (GSM_StringToBool X (string_at s2 charval), s2)
             | Undefined \<Rightarrow> Undefined
             | Diverges \<Rightarrow> Diverges)
          else Returns (intval \<noteq> 0, s1)
      | Undefined \<Rightarrow> Undefined
      | Diverges \<Rightarrow> Diverges)"

subsection \<open>SMSDODBC_Free\<close>

function Free_loop :: "externals \<Rightarrow> nat \<Rightarrow> world \<Rightarrow> world outcome" where
  "Free_loop X field s =
     (if field < MAX_RETURN_STRINGS X then
        (if \<not> field < length (retstr (Config s)) then Undefined
         else
           (case retstr (Config s) ! field of
              None \<Rightarrow> Free_loop X (field + 1) s
            | Some a \<Rightarrow>
                (case c_free a s of
                   Returns s1 \<Rightarrow> Free_loop X (field + 1) (set_retstr field None s1)
                 | Undefined \<Rightarrow> Undefined
                 | Diverges \<Rightarrow> Diverges)))
      else Returns s)"
  by pat_completeness auto
termination
  by (relation "measure (\<lambda>(X, field, s). MAX_RETURN_STRINGS X - field)") auto

definition SMSDODBC_Free :: "externals \<Rightarrow> world \<Rightarrow> world outcome" where
  "SMSDODBC_Free X s =
     (let s1 = record_call (SQLDisconnect (dbc (Config s))) s;
          s2 = record_call (SQLFreeHandle SQL_HANDLE_ENV (env (Config s1))) s1
      in Free_loop X 0 s2)"

subsection \<open>SMSDODBC_Connect\<close>

function Connect_loop :: "externals \<Rightarrow> nat \<Rightarrow> world \<Rightarrow> world outcome" where
  "Connect_loop X field s =
     (if field < MAX_RETURN_STRINGS X then
        (if \<not> field < length (retstr (Config s)) then Undefined
         else Connect_loop X (field + 1) (set_retstr field None s))
      else Returns s)"
  by pat_completeness auto
termination
  by (relation "measure (\<lambda>(X, field, s). MAX_RETURN_STRINGS X - field)") auto

definition Connect_handles :: "externals \<Rightarrow> world \<Rightarrow> (SQL_Error \<times> world) outcome" where
  \<comment> \<open>the function after its first loop\<close>
  "Connect_handles X s =
     (let c1 = SQLAllocHandle SQL_HANDLE_ENV SQL_NULL_HANDLE;
          r1 = reply X c1 s;
          s1 = (record_call c1 s)\<lparr>Config := (Config s)\<lparr>env := out_handle r1\<rparr>\<rparr>
      in if \<not> SQL_SUCCEEDED (ret r1) then
           log_and_return X SQL_HANDLE_ENV (env (Config s1)) ''SQLAllocHandle(ENV) failed'' SQL_FAIL s1
         else
           let c2 = SQLSetEnvAttr (env (Config s1));
               r2 = reply X c2 s1;
               s2 = record_call c2 s1
           in if \<not> SQL_SUCCEEDED (ret r2) then
                log_and_return X SQL_HANDLE_ENV (env (Config s2)) ''SQLSetEnvAttr failed'' SQL_FAIL s2
              else
                let c3 = SQLAllocHandle SQL_HANDLE_DBC (env (Config s2));
                    r3 = reply X c3 s2;
                    s3 = (record_call c3 s2)\<lparr>Config := (Config s2)\<lparr>dbc := out_handle r3\<rparr>\<rparr>
                in if \<not> SQL_SUCCEEDED (ret r3) then
                     log_and_return X SQL_HANDLE_ENV (env (Config s3)) ''SQLAllocHandle(DBC) failed''
                       SQL_FAIL s3
                   else
                     let c4 = SQLConnect (dbc (Config s3)) (host (Config s3)) (user (Config s3))
                                (password (Config s3));
                         r4 = reply X c4 s3;
                         s4 = record_call c4 s3
                     in if \<not> SQL_SUCCEEDED (ret r4) then
                          log_and_return X SQL_HANDLE_DBC (dbc (Config s4)) ''SQLConnect failed''
                            SQL_FAIL s4
                        else Returns (SQL_OK, s4))"

definition SMSDODBC_Connect :: "externals \<Rightarrow> world \<Rightarrow> (SQL_Error \<times> world) outcome" where
  "SMSDODBC_Connect X s =
     (case Connect_loop X 0 s of
        Returns s0 \<Rightarrow> Connect_handles X s0
      | Undefined \<Rightarrow> Undefined
      | Diverges \<Rightarrow> Diverges)"

subsection \<open>SMSDODBC_Query\<close>

definition SMSDODBC_Query ::
  "externals \<Rightarrow> string \<Rightarrow> SQL_result \<Rightarrow> world \<Rightarrow> ((SQL_Error \<times> SQL_result) \<times> world) outcome" where
  "SMSDODBC_Query X query res s =
     (let c1 = SQLAllocHandle SQL_HANDLE_STMT (dbc (Config s));
          r1 = reply X c1 s;
          s1 = record_call c1 s;
          res1 = res\<lparr>odbc := out_handle r1\<rparr>
      in if \<not> SQL_SUCCEEDED (ret r1) then Returns ((SQL_FAIL, res1), s1)
         else
           let c2 = SQLExecDirect (odbc res1) query;
               r2 = reply X c2 s1;
               s2 = record_call c2 s1
           in if SQL_SUCCEEDED (ret r2) then Returns ((SQL_OK, res1), s2)
              else log_and_return X SQL_HANDLE_STMT (odbc res1) ''SQLExecDirect failed''
                     (SQL_FAIL, res1) s2)"

subsection \<open>SMSDODBC_FreeResult\<close>

definition SMSDODBC_FreeResult :: "externals \<Rightarrow> SQL_result \<Rightarrow> world \<Rightarrow> world" where
  "SMSDODBC_FreeResult X res s = record_call (SQLFreeHandle SQL_HANDLE_STMT (odbc res)) s"

subsection \<open>SMSDODBC_NextRow\<close>

definition SMSDODBC_NextRow ::
  "externals \<Rightarrow> SQL_result \<Rightarrow> world \<Rightarrow> (int \<times> world) outcome" where
  "SMSDODBC_NextRow X res s =
     (let c = SQLFetch (odbc res);
          r = reply X c s;
          s1 = record_call c s
      in if \<not> SQL_SUCCEEDED (ret r) then
           (if ret r \<noteq> SQL_NO_DATA then
              log_and_return X SQL_HANDLE_STMT (odbc res) ''SQLFetch failed'' 0 s1
            else Returns (0, s1))
         else Returns (1, s1))"

subsection \<open>SMSDODBC_QuoteString\<close>

definition store :: "char list \<Rightarrow> nat \<Rightarrow> char \<Rightarrow> (char list \<times> nat) option" where
  \<comment> \<open>\<^verbatim>\<open>encoded_text[pos++] = c\<close>; \<open>None\<close> when \<open>pos\<close> is outside the buffer\<close>
  "store encoded_text pos c =
     (if pos < length encoded_text then Some (encoded_text[pos := c], pos + 1) else None)"

function QuoteString_loop ::
  "string \<Rightarrow> nat \<Rightarrow> nat \<Rightarrow> char list \<Rightarrow> nat \<Rightarrow> (char list \<times> nat) option" where
  "QuoteString_loop string len i encoded_text pos =
     (if i < len then
        (case (if string ! i = CHR 0x22 \<or> string ! i = CHR 0x5C
               then store encoded_text pos (CHR 0x5C)
               else Some (encoded_text, pos)) of
           None \<Rightarrow> None
         | Some (e1, pos1) \<Rightarrow>
             (case store e1 pos1 (string ! i) of
                None \<Rightarrow> None
              | Some (e2, pos2) \<Rightarrow> QuoteString_loop string len (i + 1) e2 pos2))
      else Some (encoded_text, pos))"
  by pat_completeness auto
termination
  by (relation "measure (\<lambda>(string, len, i, encoded_text, pos). len - i)") auto

definition QuoteString_fill :: "string \<Rightarrow> char list \<Rightarrow> char list option" where
  \<comment> \<open>everything the function writes into the buffer it has allocated\<close>
  "QuoteString_fill string encoded_text =
     (let len = strlen string
      in case store encoded_text 0 (CHR 0x22) of
           None \<Rightarrow> None
         | Some (e1, pos1) \<Rightarrow>
             (case QuoteString_loop string len 0 e1 pos1 of
                None \<Rightarrow> None
              | Some (e2, pos2) \<Rightarrow>
                  (case store e2 pos2 (CHR 0x22) of
                     None \<Rightarrow> None
                   | Some (e3, pos3) \<Rightarrow> map_option fst (store e3 pos3 NUL))))"

definition SMSDODBC_QuoteString :: "externals \<Rightarrow> string \<Rightarrow> world \<Rightarrow> (pointer \<times> world) outcome" where
  "SMSDODBC_QuoteString X string s =
     (case c_malloc X (strlen string * 2 + 3) s of
        (None, s1) \<Rightarrow> Undefined
      | (Some a, s1) \<Rightarrow>
          (case block_at s1 a of
             None \<Rightarrow> Undefined
           | Some encoded_text \<Rightarrow>
               (case QuoteString_fill string encoded_text of
                  None \<Rightarrow> Undefined
                | Some e \<Rightarrow> Returns (Some a, s1\<lparr>heap := (heap s1)[a := Some e]\<rparr>))))"

subsection \<open>SMSDODBC_SeqID\<close>

definition SMSDODBC_SeqID :: "externals \<Rightarrow> string \<Rightarrow> world \<Rightarrow> 64 word \<times> world" where
  "SMSDODBC_SeqID X id' s =
     (let c1 = SQLAllocHandle SQL_HANDLE_STMT (dbc (Config s));
          r1 = reply X c1 s;
          s1 = record_call c1 s;
          stmt = out_handle r1
      in if \<not> SQL_SUCCEEDED (ret r1) then (0, s1)
         else
           let c2 = SQLExecDirect stmt ''SELECT @@IDENTITY'';
               r2 = reply X c2 s1;
               s2 = record_call c2 s1
           in if \<not> SQL_SUCCEEDED (ret r2) then
                (0, record_call (SQLFreeHandle SQL_HANDLE_STMT stmt) s2)
              else
                let c3 = SQLFetch stmt;
                    r3 = reply X c3 s2;
                    s3 = record_call c3 s2
                in if \<not> SQL_SUCCEEDED (ret r3) then
                     (0, record_call (SQLFreeHandle SQL_HANDLE_STMT stmt) s3)
                   else
                     let c4 = SQLGetData stmt 1 SQL_C_SLONG 0;
                         r4 = reply X c4 s3;
                         s4 = record_call c4 s3
                     in if \<not> SQL_SUCCEEDED (ret r4) then
                          (0, record_call (SQLFreeHandle SQL_HANDLE_STMT stmt) s4)
                        else
                          (scast (out_long r4), record_call (SQLFreeHandle SQL_HANDLE_STMT stmt) s4))"

subsection \<open>SMSDODBC_AffectedRows\<close>


section \<open>Notions used in the statements\<close>

subsection \<open>The diagnostic loop comes back\<close>

text \<open>
  \<open>diag_calls handle_type h i n t\<close> is the call history after \<open>n\<close> more rounds of the loop
  of \<open>SMSDODBC_LogError\<close> started with counter \<open>i\<close> on history \<open>t\<close>. The diagnostics
  of a handle are finite when some round gets an answer other than SQL_SUCCESS.
\<close>

fun diag_calls ::
  "handle_type \<Rightarrow> SQLHANDLE \<Rightarrow> SQLINTEGER \<Rightarrow> nat \<Rightarrow> odbc_call list \<Rightarrow> odbc_call list" where
  "diag_calls handle_type h i 0 t = t"
| "diag_calls handle_type h i (Suc n) t =
     diag_calls handle_type h (i + 1) n (SQLGetDiagRec handle_type h (ucast (i + 1)) # t)"

definition is_diag_call :: "odbc_call \<Rightarrow> bool" where
  "is_diag_call c = (case c of SQLGetDiagRec _ _ _ \<Rightarrow> True | _ \<Rightarrow> False)"

definition diag_finite ::
  "externals \<Rightarrow> handle_type \<Rightarrow> SQLHANDLE \<Rightarrow> odbc_call list \<Rightarrow> bool" where
  "diag_finite X handle_type h t =
     (\<exists>n. ret (driver X (diag_calls handle_type h 0 (Suc n) t)) \<noteq> SQL_SUCCESS)"

text \<open>What a returning \<open>SMSDODBC_LogError\<close> has done to the world it started in.\<close>

definition logged :: "handle_type \<Rightarrow> SQLHANDLE \<Rightarrow> string \<Rightarrow> world \<Rightarrow> world \<Rightarrow> bool" where
  "logged handle_type h message s s' \<longleftrightarrow>
     Config s' = Config s \<and> heap s' = heap s \<and>
     (\<exists>es. logs s' = logs s @ (DEBUG_ERROR, Log_Diagnostics message) # es \<and>
        (\<forall>e \<in> set es. fst e = DEBUG_ERROR)) \<and>
     (\<exists>cs. calls s' = cs @ SQLGetDiagRec handle_type h 1 # calls s \<and>
        (\<forall>c \<in> set cs. is_diag_call c))"

subsection \<open>Calendar time\<close>

text \<open>
  In the C library's \<^verbatim>\<open>struct tm\<close>, \<^verbatim>\<open>tm_year\<close> counts the years since 1900 and
  \<^verbatim>\<open>tm_mon\<close> the months since January (0 to 11); an ODBC timestamp holds the year itself
  and the month from 1 to 12. \<open>tm_of_timestamp t dst\<close> is the broken-down time that denotes
  the calendar fields of \<open>t\<close>, with the daylight-saving flag \<open>dst\<close>.
\<close>

definition tm_of_timestamp :: "SQL_TIMESTAMP_STRUCT \<Rightarrow> int \<Rightarrow> tm" where
  "tm_of_timestamp t dst = \<lparr>
     tm_sec = uint (second t),
     tm_min = uint (minute t),
     tm_hour = uint (hour t),
     tm_mday = uint (day t),
     tm_mon = uint (month t) - 1,
     tm_year = sint (year t) - 1900,
     tm_isdst = dst \<rparr>"

text \<open>
  \<open>mktime_utc\<close> is \<^verbatim>\<open>mktime\<close> in a process whose time zone is UTC, where local time is
  universal time and daylight saving never applies: the seconds from 1970-01-01 00:00:00
  to the broken-down time, months beyond the year carried into the year.
  \<open>days_from_civil y m d\<close> is the number of days from 1970-01-01 to the day \<open>d\<close> of month
  \<open>m\<close> (1 to 12) of year \<open>y\<close> in the Gregorian calendar.
\<close>

definition days_from_civil :: "int \<Rightarrow> int \<Rightarrow> int \<Rightarrow> int" where
  "days_from_civil y m d =
     (let y' = (if m \<le> 2 then y - 1 else y);
          era = y' div 400;
          yoe = y' - era * 400;
          doy = (153 * (if m > 2 then m - 3 else m + 9) + 2) div 5 + d - 1;
          doe = yoe * 365 + yoe div 4 - yoe div 100 + doy
      in era * 146097 + doe - 719468)"

definition mktime_utc :: "tm \<Rightarrow> int" where
  "mktime_utc t =
     (let months = tm_year t * 12 + tm_mon t;
          y = 1900 + months div 12;
          m = months mod 12 + 1
      in days_from_civil y m (tm_mday t) * 86400 + tm_hour t * 3600 + tm_min t * 60 + tm_sec t)"

subsection \<open>Sample surroundings\<close>

definition sample_reply :: odbc_reply where
  "sample_reply = \<lparr>
     ret = SQL_SUCCESS,
     out_handle = 7,
     out_long = 42,
     out_timestamp = \<lparr>year = 2011, month = 3, day = 15, hour = 10, minute = 30, second = 0,
                       fraction = 0\<rparr>,
     out_len = 5,
     out_text = ''Alice'',
     out_state = ''HY000'',
     out_native = 0 \<rparr>"

text \<open>
  Three drivers whose answer depends on the latest call only. All of them hold one
  diagnostic record per handle. \<open>good_driver\<close> grants every other call,
  \<open>bad_driver\<close> fails every other call with SQL_ERROR, \<open>empty_driver\<close> grants every
  other call but has no row to fetch.
\<close>

definition diag_reply :: "SQLSMALLINT \<Rightarrow> odbc_reply" where
  "diag_reply n = sample_reply\<lparr>ret := (if n = 1 then SQL_SUCCESS else SQL_NO_DATA)\<rparr>"

definition good_driver :: "odbc_call list \<Rightarrow> odbc_reply" where
  "good_driver t =
     (case t of
        SQLGetDiagRec _ _ n # _ \<Rightarrow> diag_reply n
      | _ \<Rightarrow> sample_reply)"

definition bad_driver :: "odbc_call list \<Rightarrow> odbc_reply" where
  "bad_driver t =
     (case t of
        SQLGetDiagRec _ _ n # _ \<Rightarrow> diag_reply n
      | _ \<Rightarrow> sample_reply\<lparr>ret := SQL_ERROR\<rparr>)"

definition empty_driver :: "odbc_call list \<Rightarrow> odbc_reply" where
  "empty_driver t =
     (case t of
        SQLGetDiagRec _ _ n # _ \<Rightarrow> diag_reply n
      | SQLFetch _ # _ \<Rightarrow> sample_reply\<lparr>ret := SQL_NO_DATA\<rparr>
      | _ \<Rightarrow> sample_reply)"

text \<open>
  Modelled from the spec: the boolean parser \<^verbatim>\<open>GSM_StringToBool\<close> belongs to the
  surrounding library and is not among the sources. The spec describes it as "mapping a
  string to a boolean per a shared convention (e.g., "1"/"true" style tokens)":
  \<open>sample_tokens\<close> accepts these two tokens and nothing else.
\<close>

definition sample_tokens :: "string option \<Rightarrow> bool" where
  "sample_tokens v = (v = Some ''1'' \<or> v = Some ''true'')"

definition sample_externals :: "(odbc_call list \<Rightarrow> odbc_reply) \<Rightarrow> externals" where
  "sample_externals d = \<lparr>
     MAX_RETURN_STRINGS = 3,
     driver = d,
     malloc_ok = (\<lambda>_ _. True),
     mktime = mktime_utc,
     daylight = None,
     GSM_StringToBool = sample_tokens \<rparr>"

definition sample_world :: world where
  "sample_world = \<lparr>
     Config = \<lparr>host = ''host1'', user = ''user1'', password = ''pw1'', env = 0, dbc = 0,
                retstr = [None, None, None]\<rparr>,
     heap = [],
     logs = [],
     calls = [] \<rparr>"

definition sample_result :: SQL_result where
  "sample_result = \<lparr>odbc = 7\<rparr>"

text \<open>
  \<open>minus_one_driver\<close> grants every call and holds the number -1 in every column:
  fetched as a long it is \<open>- 1\<close>, fetched as characters it is the two characters
  \<^verbatim>\<open>-1\<close>.
\<close>

definition minus_one_driver :: "odbc_call list \<Rightarrow> odbc_reply" where
  "minus_one_driver t =
     (case t of
        SQLGetDiagRec _ _ n # _ \<Rightarrow> diag_reply n
      | _ \<Rightarrow> sample_reply\<lparr>out_long := - 1, out_len := 2, out_text := ''-1''\<rparr>)"

subsection \<open>Reading an outcome\<close>

definition returned :: "('a \<times> world) outcome \<Rightarrow> 'a option" where
  "returned r = (case r of Returns (v, _) \<Rightarrow> Some v | _ \<Rightarrow> None)"

definition world_after :: "('a \<times> world) outcome \<Rightarrow> world option" where
  "world_after r = (case r of Returns (_, s) \<Rightarrow> Some s | _ \<Rightarrow> None)"

subsection \<open>The driver's answer to the fetch of a column as a long\<close>

definition long_call :: "SQL_result \<Rightarrow> 32 word \<Rightarrow> odbc_call" where
  "long_call res field = SQLGetData (odbc res) (ucast (field + 1)) SQL_C_SLONG 0"

definition long_fetch :: "externals \<Rightarrow> SQL_result \<Rightarrow> 32 word \<Rightarrow> world \<Rightarrow> odbc_reply" where
  "long_fetch X res field s = reply X (long_call res field) s"

subsection \<open>The calls an operation has added to the history\<close>

definition new_calls :: "world \<Rightarrow> world \<Rightarrow> odbc_call list" where
  "new_calls s s' = take (length (calls s') - length (calls s)) (calls s')"

subsection \<open>The steps of SMSDODBC_SeqID\<close>

text \<open>
  \<open>SeqID_calls X s k\<close> is the history at the \<open>k\<close>-th API call of \<open>SMSDODBC_SeqID\<close>
  started in \<open>s\<close>: the allocation of the statement handle (1), the execution (2), the
  fetch (3), the retrieval of the value (4). A step fails when the driver answers that
  history with a status that is not a success.
\<close>

definition SeqID_calls :: "externals \<Rightarrow> world \<Rightarrow> nat \<Rightarrow> odbc_call list" where
  "SeqID_calls X s k =
     (let alloc = SQLAllocHandle SQL_HANDLE_STMT (dbc (Config s));
          stmt = out_handle (reply X alloc s)
      in drop (4 - k)
           [SQLGetData stmt 1 SQL_C_SLONG 0, SQLFetch stmt,
            SQLExecDirect stmt ''SELECT @@IDENTITY'', alloc] @ calls s)"

definition SeqID_step_fails :: "externals \<Rightarrow> world \<Rightarrow> nat \<Rightarrow> bool" where
  "SeqID_step_fails X s k = (\<not> SQL_SUCCEEDED (ret (driver X (SeqID_calls X s k))))"

definition SeqID_stmt :: "externals \<Rightarrow> world \<Rightarrow> SQLHANDLE" where
  "SeqID_stmt X s = out_handle (reply X (SQLAllocHandle SQL_HANDLE_STMT (dbc (Config s))) s)"

text \<open>
  A driver that fails the calls picked out by a predicate and grants all others (it holds
  one diagnostic record per handle).
\<close>

definition failing_driver :: "(odbc_call \<Rightarrow> bool) \<Rightarrow> odbc_call list \<Rightarrow> odbc_reply" where
  "failing_driver bad t =
     (case t of
        [] \<Rightarrow> sample_reply
      | SQLGetDiagRec _ _ n # _ \<Rightarrow> diag_reply n
      | c # _ \<Rightarrow> if bad c then sample_reply\<lparr>ret := SQL_ERROR\<rparr> else sample_reply)"

definition is_fetch :: "odbc_call \<Rightarrow> bool" where
  "is_fetch c = (case c of SQLFetch _ \<Rightarrow> True | _ \<Rightarrow> False)"


definition is_get_data :: "odbc_call \<Rightarrow> bool" where
  "is_get_data c = (case c of SQLGetData _ _ _ _ \<Rightarrow> True | _ \<Rightarrow> False)"


subsection \<open>The slots of \<open>retstr\<close>\<close>

text \<open>
  Modelled from the spec: the declaration of \<^verbatim>\<open>retstr\<close> (in core.h) is not among the
  sources. The spec's data model makes it "a fixed-size array of lazily-allocated,
  reusable buffers indexed by field position (bounded by a maximum field count)", and the
  loops of \<open>SMSDODBC_Connect\<close> and \<open>SMSDODBC_Free\<close> run over
  \<^verbatim>\<open>SMSD_ODBC_MAX_RETURN_STRINGS\<close> slots: the array has that many slots.
\<close>

definition retstr_declared :: "externals \<Rightarrow> world \<Rightarrow> bool" where
  "retstr_declared X s = (length (retstr (Config s)) = MAX_RETURN_STRINGS X)"

definition all_empty :: "world \<Rightarrow> bool" where
  "all_empty s = (retstr (Config s) = replicate (length (retstr (Config s))) None)"

fun buffers :: "pointer list \<Rightarrow> nat list" where
  "buffers [] = []"
| "buffers (None # ps) = buffers ps"
| "buffers (Some a # ps) = a # buffers ps"

text \<open>
  The slots own their buffers: every slot that is not empty holds the address of an
  allocated block, and no two slots hold the same address.
\<close>

definition slots_owned :: "world \<Rightarrow> bool" where
  "slots_owned s =
     (distinct (buffers (retstr (Config s))) \<and> list_all (allocated s) (buffers (retstr (Config s))))"

definition sample_allocated :: world where
  \<comment> \<open>the sample world after two strings have been fetched\<close>
  "sample_allocated = sample_world\<lparr>
     Config := (Config sample_world)\<lparr>retstr := [Some 1, None, Some 0]\<rparr>,
     heap := [Some ''Alice'', Some ''Bob'']\<rparr>"

subsection \<open>Quoting, in the words of the spec\<close>

text \<open>
  \<open>quoted\<close> wraps a string in double quotes and puts a backslash before every double
  quote and backslash in it. \<open>unquote\<close> strips the surrounding quotes and collapses each
  backslash escape to the character that follows the backslash.
\<close>

definition escape :: "char \<Rightarrow> string" where
  "escape c = (if c = CHR 0x22 \<or> c = CHR 0x5C then [CHR 0x5C, c] else [c])"

definition quoted :: "string \<Rightarrow> string" where
  "quoted s = CHR 0x22 # concat (map escape s) @ [CHR 0x22]"

fun collapse :: "string \<Rightarrow> string" where
  "collapse [] = []"
| "collapse [c] = [c]"
| "collapse (c # d # cs) = (if c = CHR 0x5C then d # collapse cs else c # collapse (d # cs))"

definition unquote :: "string \<Rightarrow> string option" where
  "unquote q =
     (if 2 \<le> length q \<and> hd q = CHR 0x22 \<and> last q = CHR 0x22
      then Some (collapse (butlast (tl q)))
      else None)"

subsection \<open>Failing with diagnostics\<close>

text \<open>
  What the API hands out when the diagnostic records of a handle are asked for one after
  the other, starting on history \<open>t\<close>: \<open>diag_record X handle_type h t k\<close> is the driver's
  answer to the request for record \<open>k + 1\<close>, made after the requests for the records
  \<open>1, \<dots>, k\<close>. The answer carries a record when its status is a success
  (SQL_SUCCESS or SQL_SUCCESS_WITH_INFO), and \<open>diag_line\<close> is then the line that
  belongs in the log for it (none otherwise): the SQL state, the record number, the
  native error code and the message text, cut to the 255 characters that the buffer of
  \<open>SMSDODBC_LogError\<close> holds. Request \<open>n + 1\<close> is the last one
  (\<open>diag_last X handle_type h t n\<close>) when it is the first that is not answered with
  SQL_SUCCESS.
\<close>

definition diag_record ::
  "externals \<Rightarrow> handle_type \<Rightarrow> SQLHANDLE \<Rightarrow> odbc_call list \<Rightarrow> nat \<Rightarrow> odbc_reply" where
  "diag_record X handle_type h t k = driver X (diag_calls handle_type h 0 (Suc k) t)"

definition diag_line ::
  "externals \<Rightarrow> handle_type \<Rightarrow> SQLHANDLE \<Rightarrow> odbc_call list \<Rightarrow> nat \<Rightarrow>
     (severity \<times> log_entry) list" where
  "diag_line X handle_type h t k =
     (let r = diag_record X handle_type h t k
      in if SQL_SUCCEEDED (ret r)
         then [(DEBUG_ERROR,
                Log_DiagRec (out_state r) (of_nat (Suc k)) (out_native r) (take 255 (out_text r)))]
         else [])"

definition diag_last ::
  "externals \<Rightarrow> handle_type \<Rightarrow> SQLHANDLE \<Rightarrow> odbc_call list \<Rightarrow> nat \<Rightarrow> bool" where
  "diag_last X handle_type h t n \<longleftrightarrow>
     ret (diag_record X handle_type h t n) \<noteq> SQL_SUCCESS \<and>
     list_all (\<lambda>k. ret (diag_record X handle_type h t k) = SQL_SUCCESS) [0..<n]"

text \<open>
  \<open>after_diagnostics X handle_type h message n s\<close> is the world \<open>s\<close> with the diagnostics
  of a failed call in its log, request \<open>n + 1\<close> being the last: the header line for
  \<open>message\<close>, then the lines of the records \<open>1, \<dots>, n + 1\<close> in this order, all at error
  severity, and nothing else; the requests for these records are the only calls added to
  the history, and nothing else has changed.
\<close>

definition after_diagnostics ::
  "externals \<Rightarrow> handle_type \<Rightarrow> SQLHANDLE \<Rightarrow> string \<Rightarrow> nat \<Rightarrow> world \<Rightarrow> world" where
  "after_diagnostics X handle_type h message n s =
     s\<lparr>logs := logs s @ (DEBUG_ERROR, Log_Diagnostics message) #
                concat (map (diag_line X handle_type h (calls s)) [0..<Suc n]),
       calls := diag_calls handle_type h 0 (Suc n) (calls s)\<rparr>"

text \<open>
  \<open>fails_loudly X handle_type h message v s out\<close>: \<open>out\<close> is the outcome of a failure branch
  entered in world \<open>s\<close>, the failed call being the latest of its history. Either some
  request for a diagnostic record is the last one, and the branch returns the sentinel
  \<open>v\<close> from the world \<open>s\<close> with exactly these diagnostics logged; or the driver answers
  every request with SQL_SUCCESS, and the branch never returns.
\<close>

definition fails_loudly ::
  "externals \<Rightarrow> handle_type \<Rightarrow> SQLHANDLE \<Rightarrow> string \<Rightarrow> 'a \<Rightarrow> world \<Rightarrow> ('a \<times> world) outcome \<Rightarrow> bool"
  where
  "fails_loudly X handle_type h message v s out \<longleftrightarrow>
     (\<exists>n. diag_last X handle_type h (calls s) n \<and>
          out = Returns (v, after_diagnostics X handle_type h message n s)) \<or>
     (\<not> diag_finite X handle_type h (calls s) \<and> out = Diverges)"

subsection \<open>The steps of SMSDODBC_Connect\<close>

text \<open>
  The four API calls of \<open>SMSDODBC_Connect\<close> started in \<open>s\<close>: the allocation of the
  environment handle (1), the setting of the ODBC version (2), the allocation of the
  connection handle (3), the connection (4). \<open>Connect_calls X s k\<close> is the history at
  the \<open>k\<close>-th call, and the step fails when the driver answers that history with a status
  that is not a success. \<open>Connect_world X s k\<close> is the world in which the status of
  the \<open>k\<close>-th call is tested: the slots that the first loop runs over are empty and the
  handles received so far are stored.
\<close>

definition Connect_env :: "externals \<Rightarrow> world \<Rightarrow> SQLHANDLE" where
  "Connect_env X s = out_handle (reply X (SQLAllocHandle SQL_HANDLE_ENV SQL_NULL_HANDLE) s)"

definition Connect_dbc :: "externals \<Rightarrow> world \<Rightarrow> SQLHANDLE" where
  "Connect_dbc X s =
     out_handle (driver X
       (SQLAllocHandle SQL_HANDLE_DBC (Connect_env X s) # SQLSetEnvAttr (Connect_env X s) #
        SQLAllocHandle SQL_HANDLE_ENV SQL_NULL_HANDLE # calls s))"

definition Connect_calls :: "externals \<Rightarrow> world \<Rightarrow> nat \<Rightarrow> odbc_call list" where
  "Connect_calls X s k =
     drop (4 - k)
       [SQLConnect (Connect_dbc X s) (host (Config s)) (user (Config s)) (password (Config s)),
        SQLAllocHandle SQL_HANDLE_DBC (Connect_env X s),
        SQLSetEnvAttr (Connect_env X s),
        SQLAllocHandle SQL_HANDLE_ENV SQL_NULL_HANDLE] @ calls s"


definition Connect_world :: "externals \<Rightarrow> world \<Rightarrow> nat \<Rightarrow> world" where
  "Connect_world X s k =
     s\<lparr>Config := (Config s)\<lparr>
          env := Connect_env X s,
          dbc := (if k < 3 then dbc (Config s) else Connect_dbc X s),
          retstr := replicate (MAX_RETURN_STRINGS X) None @
                    drop (MAX_RETURN_STRINGS X) (retstr (Config s))\<rparr>,
       calls := Connect_calls X s k\<rparr>"




text \<open>\<open>mute_driver\<close> fails every call and holds no diagnostic record.\<close>

definition mute_driver :: "odbc_call list \<Rightarrow> odbc_reply" where
  "mute_driver t =
     (case t of
        SQLGetDiagRec _ _ _ # _ \<Rightarrow> sample_reply\<lparr>ret := SQL_NO_DATA\<rparr>
      | _ \<Rightarrow> sample_reply\<lparr>ret := SQL_ERROR\<rparr>)"

section \<open>Status codes\<close>

lemma and_not_one_zero:
  fixes rc :: "16 word"
  assumes a: "rc AND NOT 1 = 0"
  shows "rc = 0 \<or> rc = 1"
proof -
  have "rc = (rc AND NOT 1) OR (rc AND 1)"
    by (simp flip: bit.conj_disj_distrib)
  with a have b: "rc = rc AND 1" by simp
  have "rc = of_bool (odd rc)"
    by (rule trans [OF trans [OF b and_one_eq] mod_2_eq_odd])
  then show ?thesis by (cases "odd rc") simp_all
qed

lemma SQL_SUCCEEDED_iff:
  "SQL_SUCCEEDED rc \<longleftrightarrow> rc = SQL_SUCCESS \<or> rc = SQL_SUCCESS_WITH_INFO"
  unfolding SQL_SUCCEEDED_def SQL_SUCCESS_def SQL_SUCCESS_WITH_INFO_def
  using and_not_one_zero [of rc] by auto

lemma SQL_SUCCEEDED_simps [simp]:
  "SQL_SUCCEEDED SQL_SUCCESS" "SQL_SUCCEEDED SQL_SUCCESS_WITH_INFO"
  "\<not> SQL_SUCCEEDED SQL_NO_DATA" "\<not> SQL_SUCCEEDED SQL_ERROR"
  by (simp_all add: SQL_SUCCEEDED_iff SQL_NO_DATA_def SQL_SUCCESS_def SQL_SUCCESS_WITH_INFO_def
      SQL_ERROR_def)

lemma status_distinct [simp]:
  "SQL_NO_DATA \<noteq> SQL_SUCCESS" "SQL_ERROR \<noteq> SQL_SUCCESS" "SQL_ERROR \<noteq> SQL_NO_DATA"
  by (simp_all add: SQL_NO_DATA_def SQL_SUCCESS_def SQL_ERROR_def)

section \<open>The world under logging and API calls\<close>

lemma SMSD_Log_simps [simp]:
  "Config (SMSD_Log sev e s) = Config s" "heap (SMSD_Log sev e s) = heap s"
  "calls (SMSD_Log sev e s) = calls s" "logs (SMSD_Log sev e s) = logs s @ [(sev, e)]"
  by (simp_all add: SMSD_Log_def)

lemma record_call_simps [simp]:
  "Config (record_call c s) = Config s" "heap (record_call c s) = heap s"
  "calls (record_call c s) = c # calls s" "logs (record_call c s) = logs s"
  by (simp_all add: record_call_def)

lemma reply_SMSD_Log [simp]: "reply X c (SMSD_Log sev e s) = reply X c s"
  by (simp add: reply_def)

section \<open>Widening a fetched SQLINTEGER\<close>

lemma sint_scast_long [simp]: "sint (scast (x :: 32 word) :: 64 word) = sint x"
  by (rule sint_up_scast) (simp add: is_up)

lemma scast_long_minus_one [simp]: "scast (x :: 32 word) = (- 1 :: 64 word) \<longleftrightarrow> x = - 1"
proof
  assume "scast x = (- 1 :: 64 word)"
  then have "scast (scast x :: 64 word) = (scast (- 1 :: 64 word) :: 32 word)"
    by simp
  moreover have "scast (scast x :: 64 word) = x"
    by (rule scast_up_scast_id) (simp add: is_up)
  ultimately show "x = - 1" by simp
qed simp

lemma scast_long_zero [simp]: "scast (x :: 32 word) = (0 :: 64 word) \<longleftrightarrow> x = 0"
proof
  assume "scast x = (0 :: 64 word)"
  then have "scast (scast x :: 64 word) = (scast (0 :: 64 word) :: 32 word)"
    by simp
  moreover have "scast (scast x :: 64 word) = x"
    by (rule scast_up_scast_id) (simp add: is_up)
  ultimately show "x = 0" by simp
qed simp

section \<open>SMSDODBC_LogError\<close>

lemma LogError_loop_frame:
  assumes "LogError_loop X0 ht0 h0 i0 s0 = Some s0'"
  shows "Config s0' = Config s0 \<and> heap s0' = heap s0 \<and>
     (\<exists>es. logs s0' = logs s0 @ es \<and> (\<forall>e \<in> set es. fst e = DEBUG_ERROR)) \<and>
     (\<exists>cs. calls s0' = cs @ SQLGetDiagRec ht0 h0 (ucast (i0 + 1)) # calls s0 \<and>
        (\<forall>c \<in> set cs. is_diag_call c))"
proof (rule LogError_loop.raw_induct [where P = "\<lambda>X ht h i s s'.
     Config s' = Config s \<and> heap s' = heap s \<and>
     (\<exists>es. logs s' = logs s @ es \<and> (\<forall>e \<in> set es. fst e = DEBUG_ERROR)) \<and>
     (\<exists>cs. calls s' = cs @ SQLGetDiagRec ht h (ucast (i + 1)) # calls s \<and>
        (\<forall>c \<in> set cs. is_diag_call c))", OF _ assms], goal_cases)
  case (1 loop X ht h i s s')
  let ?c = "SQLGetDiagRec ht h (ucast (i + 1))"
  let ?r = "reply X ?c s"
  let ?s2 = "if SQL_SUCCEEDED (ret ?r)
             then SMSD_Log DEBUG_ERROR
                    (Log_DiagRec (out_state ?r) (i + 1) (out_native ?r) (take 255 (out_text ?r)))
                    (record_call ?c s)
             else record_call ?c s"
  show ?case
  proof (cases "ret ?r = SQL_SUCCESS")
    case False
    with 1(2) have "s' = ?s2" by (simp add: Let_def)
    then show ?thesis by (cases "SQL_SUCCEEDED (ret ?r)") auto
  next
    case True
    with 1(2) have "loop X ht h (i + 1) ?s2 = Some s'" by (simp add: Let_def)
    from 1(1) [OF this] obtain es cs where s':
      "Config s' = Config ?s2" "heap s' = heap ?s2"
      "logs s' = logs ?s2 @ es" "\<forall>e \<in> set es. fst e = DEBUG_ERROR"
      "calls s' = cs @ SQLGetDiagRec ht h (ucast (i + 1 + 1)) # calls ?s2"
      "\<forall>c \<in> set cs. is_diag_call c"
      by blast
    have "Config s' = Config s" "heap s' = heap s"
      using s'(1,2) by simp_all
    moreover have "\<exists>es. logs s' = logs s @ es \<and> (\<forall>e \<in> set es. fst e = DEBUG_ERROR)"
      using s'(3,4) by auto
    moreover have "calls s' = (cs @ [SQLGetDiagRec ht h (ucast (i + 1 + 1))]) @ ?c # calls s"
      using s'(5) by simp
    then have "\<exists>cs. calls s' = cs @ ?c # calls s \<and> (\<forall>c \<in> set cs. is_diag_call c)"
      using s'(6) by (intro exI [of _ "cs @ [SQLGetDiagRec ht h (ucast (i + 1 + 1))]"])
        (auto simp: is_diag_call_def)
    ultimately show ?thesis by blast
  qed
qed

lemma LogError_loop_returns:
  "ret (driver X (diag_calls ht h i (Suc n) (calls s))) \<noteq> SQL_SUCCESS \<Longrightarrow>
   \<exists>s'. LogError_loop X ht h i s = Some s'"
proof (induction n arbitrary: i s)
  case 0
  then show ?case
    by (subst LogError_loop.simps) (auto simp: Let_def reply_def)
next
  case (Suc n)
  let ?c = "SQLGetDiagRec ht h (ucast (i + 1))"
  let ?r = "reply X ?c s"
  let ?s2 = "if SQL_SUCCEEDED (ret ?r)
             then SMSD_Log DEBUG_ERROR
                    (Log_DiagRec (out_state ?r) (i + 1) (out_native ?r) (take 255 (out_text ?r)))
                    (record_call ?c s)
             else record_call ?c s"
  show ?case
  proof (cases "ret ?r = SQL_SUCCESS")
    case False
    then show ?thesis
      by (subst LogError_loop.simps) (simp add: Let_def)
  next
    case True
    from Suc.prems have "ret (driver X (diag_calls ht h (i + 1) (Suc n) (calls ?s2))) \<noteq> SQL_SUCCESS"
      by simp
    from Suc.IH [OF this] obtain s' where "LogError_loop X ht h (i + 1) ?s2 = Some s'"
      by blast
    with True have "LogError_loop X ht h i s = Some s'"
      by (subst LogError_loop.simps) (simp add: Let_def)
    then show ?thesis by blast
  qed
qed

lemma LogError_logged:
  "SMSDODBC_LogError X ht h message s = Some s' \<Longrightarrow> logged ht h message s s'"
  unfolding SMSDODBC_LogError_def
  by (drule LogError_loop_frame) (auto simp: logged_def)

lemma LogError_returns:
  "diag_finite X ht h (calls s) \<Longrightarrow> \<exists>s'. SMSDODBC_LogError X ht h message s = Some s'"
  unfolding SMSDODBC_LogError_def diag_finite_def
  using LogError_loop_returns [of X ht h 0 _ "SMSD_Log DEBUG_ERROR (Log_Diagnostics message) s"]
  by auto

lemma log_and_return_cases:
  "log_and_return X ht h message v s = Diverges \<or>
   (\<exists>s'. log_and_return X ht h message v s = Returns (v, s') \<and> logged ht h message s s')"
  by (auto simp: log_and_return_def dest: LogError_logged split: option.splits)

lemma log_and_return_returns:
  assumes "diag_finite X ht h (calls s)"
  shows "\<exists>s'. log_and_return X ht h message v s = Returns (v, s') \<and> logged ht h message s s'"
  using LogError_returns [OF assms, of message]
  by (auto simp: log_and_return_def dest: LogError_logged)

lemma log_and_return_Returns:
  "log_and_return X ht h message v s = Returns (w, s') \<Longrightarrow> w = v \<and> logged ht h message s s'"
  using log_and_return_cases [of X ht h message v s] by auto

section \<open>The sample drivers\<close>

lemma diag_finite_sample [simp]:
  "diag_finite (sample_externals good_driver) ht h t"
  "diag_finite (sample_externals bad_driver) ht h t"
  "diag_finite (sample_externals empty_driver) ht h t"
  unfolding diag_finite_def
  by (rule exI [of _ 1],
      simp add: sample_externals_def good_driver_def bad_driver_def empty_driver_def diag_reply_def
        SQL_NO_DATA_def SQL_SUCCESS_def)+

lemma sample_replies [simp]:
  "reply (sample_externals good_driver) (SQLFetch h) s = sample_reply"
  "reply (sample_externals bad_driver) (SQLFetch h) s = sample_reply\<lparr>ret := SQL_ERROR\<rparr>"
  "reply (sample_externals empty_driver) (SQLFetch h) s = sample_reply\<lparr>ret := SQL_NO_DATA\<rparr>"
  "reply (sample_externals good_driver) (SQLGetData h col ty n) s = sample_reply"
  "reply (sample_externals bad_driver) (SQLGetData h col ty n) s = sample_reply\<lparr>ret := SQL_ERROR\<rparr>"
  by (simp_all add: reply_def sample_externals_def good_driver_def bad_driver_def empty_driver_def)

lemma ret_sample_reply [simp]: "ret sample_reply = SQL_SUCCESS"
  by (simp add: sample_reply_def)

lemma minus_one_replies [simp]:
  "reply (sample_externals minus_one_driver) (SQLGetData h col ty n) s =
     sample_reply\<lparr>out_long := - 1, out_len := 2, out_text := ''-1''\<rparr>"
  by (simp add: reply_def sample_externals_def minus_one_driver_def)

lemma diag_finite_minus_one [simp]:
  "diag_finite (sample_externals minus_one_driver) ht h t"
  unfolding diag_finite_def
  by (rule exI [of _ 1])
    (simp add: sample_externals_def minus_one_driver_def diag_reply_def SQL_NO_DATA_def SQL_SUCCESS_def)

lemma sample_reply_simps [simp]:
  "out_long sample_reply = 42" "out_len sample_reply = 5" "out_text sample_reply = ''Alice''"
  by (simp_all add: sample_reply_def)

lemmas sample_defs =
  sample_externals_def sample_world_def sample_result_def sample_reply_def sample_tokens_def
  good_driver_def bad_driver_def empty_driver_def minus_one_driver_def diag_reply_def

lemmas GetString_defs =
  SMSDODBC_GetString_def GetString_allocate_def GetString_fetch_def c_malloc_def c_realloc_def
  set_retstr_def write_cstring_def cstring_def NUL_def SQL_NULL_DATA_def allocated_def block_at_def

lemma sample_externals_simps [simp]:
  "MAX_RETURN_STRINGS (sample_externals d) = 3" "driver (sample_externals d) = d"
  "malloc_ok (sample_externals d) = (\<lambda>_ _. True)" "mktime (sample_externals d) = mktime_utc"
  "daylight (sample_externals d) = None" "GSM_StringToBool (sample_externals d) = sample_tokens"
  by (simp_all add: sample_externals_def)

lemma long_fetch_sample [simp]:
  "long_fetch (sample_externals good_driver) res field s = sample_reply"
  "long_fetch (sample_externals bad_driver) res field s = sample_reply\<lparr>ret := SQL_ERROR\<rparr>"
  "long_fetch (sample_externals minus_one_driver) res field s =
     sample_reply\<lparr>out_long := - 1, out_len := 2, out_text := ''-1''\<rparr>"
  by (simp_all add: long_fetch_def long_call_def)

section \<open>Pointers returned by SMSDODBC_GetString\<close>

lemma block_at_simps [simp]:
  "block_at (SMSD_Log sev e s) a = block_at s a"
  "block_at (record_call c s) a = block_at s a"
  "block_at (set_retstr f p s) a = block_at s a"
  by (simp_all add: block_at_def set_retstr_def)

lemma allocated_simps [simp]:
  "allocated (SMSD_Log sev e s) = allocated s"
  "allocated (record_call c s) = allocated s"
  "allocated (set_retstr f p s) = allocated s"
  by (rule ext, simp add: allocated_def)+

lemma GetString_allocate_pointer:
  assumes "GetString_allocate X field n s = Returns (Some a, s')"
  shows "allocated s' a \<and> unat field < length (retstr (Config s')) \<and>
    retstr (Config s') ! unat field = Some a \<and> calls s' = calls s \<and> logs s' = logs s"
  using assms
  by (auto simp: GetString_allocate_def c_malloc_def c_realloc_def set_retstr_def allocated_def
      block_at_def nth_append split: if_splits option.splits outcome.splits)

lemma GetString_fetch_pointer:
  assumes "GetString_fetch X res field n a s = Returns (Some b, s')"
  shows "b = a \<and> Config s' = Config s \<and> allocated s' a"
proof (cases "SQL_SUCCEEDED (ret (reply X (SQLGetData (odbc res) (ucast (field + 1)) SQL_C_CHAR (n + 1)) s))")
  case True
  with assms show ?thesis
    by (auto simp: GetString_fetch_def Let_def allocated_def block_at_def
        split: option.splits if_splits)
next
  case False
  with assms have "log_and_return X SQL_HANDLE_STMT (odbc res) ''SQLGetData(string) failed'' None
      (record_call (SQLGetData (odbc res) (ucast (field + 1)) SQL_C_CHAR (n + 1)) s) =
      Returns (Some b, s')"
    by (simp add: GetString_fetch_def Let_def)
  from log_and_return_Returns [OF this] show ?thesis by simp
qed

lemma GetString_pointer:
  assumes "SMSDODBC_GetString X res field s = Returns (Some a, s')"
  shows "allocated s' a \<and> unat field < length (retstr (Config s')) \<and>
    retstr (Config s') ! unat field = Some a"
proof -
  let ?c = "SQLGetData (odbc res) (ucast (field + 1)) SQL_C_CHAR 0"
  let ?s1 = "record_call ?c s"
  let ?n = "out_len (reply X ?c s)"
  from assms have f: "\<not> unat field > MAX_RETURN_STRINGS X"
    by (auto simp: SMSDODBC_GetString_def)
  have ok: "SQL_SUCCEEDED (ret (reply X ?c s))"
  proof (rule ccontr)
    assume "\<not> SQL_SUCCEEDED (ret (reply X ?c s))"
    with assms f have "log_and_return X SQL_HANDLE_STMT (odbc res) ''SQLGetData(string,NULL) failed''
        None ?s1 = Returns (Some a, s')"
      by (simp add: SMSDODBC_GetString_def Let_def)
    from log_and_return_Returns [OF this] show False by simp
  qed
  from assms f ok have nn: "?n \<noteq> SQL_NULL_DATA"
    by (auto simp: SMSDODBC_GetString_def Let_def)
  from assms f ok nn obtain b s2 where
    al: "GetString_allocate X field ?n ?s1 = Returns (Some b, s2)" and
    fe: "GetString_fetch X res field ?n b s2 = Returns (Some a, s')"
    by (auto simp: SMSDODBC_GetString_def Let_def split: outcome.splits option.splits)
  from GetString_allocate_pointer [OF al] GetString_fetch_pointer [OF fe]
  show ?thesis by simp
qed

lemma GetString_good_sample:
  "SMSDODBC_GetString (sample_externals good_driver) sample_result 1 sample_world =
   Returns (Some 0,
     \<lparr>Config = \<lparr>host = ''host1'', user = ''user1'', password = ''pw1'', env = 0, dbc = 0,
                 retstr = [None, Some 0, None]\<rparr>,
      heap = [Some [CHR ''A'', CHR ''l'', CHR ''i'', CHR ''c'', CHR ''e'', CHR 0x00]],
      logs = [(DEBUG_INFO, Log_FieldString 1 ''Alice'')],
      calls = [SQLGetData 7 2 SQL_C_CHAR 6, SQLGetData 7 2 SQL_C_CHAR 0]\<rparr>)"
  by (simp add: GetString_defs sample_defs reply_def record_call_def SMSD_Log_def Let_def)

section \<open>The loops over the slots\<close>

declare Connect_loop.simps [simp del] Free_loop.simps [simp del]

lemma set_buffers: "set (buffers ps) = {a. Some a \<in> set ps}"
  by (induction ps rule: buffers.induct) auto

lemma buffers_replicate_None [simp]: "buffers (replicate n None) = []"
  by (induction n) simp_all

lemma set_retstr_simps [simp]:
  "retstr (Config (set_retstr f p s)) = (retstr (Config s))[f := p]"
  "heap (set_retstr f p s) = heap s" "logs (set_retstr f p s) = logs s"
  "calls (set_retstr f p s) = calls s"
  "host (Config (set_retstr f p s)) = host (Config s)"
  "user (Config (set_retstr f p s)) = user (Config s)"
  "password (Config (set_retstr f p s)) = password (Config s)"
  "env (Config (set_retstr f p s)) = env (Config s)"
  "dbc (Config (set_retstr f p s)) = dbc (Config s)"
  by (simp_all add: set_retstr_def)

lemma Connect_loop_slots:
  "field \<le> MAX_RETURN_STRINGS X \<Longrightarrow> MAX_RETURN_STRINGS X \<le> length (retstr (Config s)) \<Longrightarrow>
   Connect_loop X field s =
     Returns (s\<lparr>Config := (Config s)\<lparr>retstr :=
        take field (retstr (Config s)) @ replicate (MAX_RETURN_STRINGS X - field) None @
        drop (MAX_RETURN_STRINGS X) (retstr (Config s))\<rparr>\<rparr>)"
proof (induction X field s rule: Connect_loop.induct)
  case (1 X field s)
  let ?n = "MAX_RETURN_STRINGS X"
  let ?ps = "retstr (Config s)"
  show ?case
  proof (cases "field < ?n")
    case False
    with "1.prems" have "field = ?n" by simp
    with "1.prems" show ?thesis by (subst Connect_loop.simps) simp
  next
    case True
    with "1.prems" have lt: "field < length ?ps" by simp
    let ?s1 = "set_retstr field None s"
    have "Connect_loop X field s = Connect_loop X (field + 1) ?s1"
      using True lt by (subst Connect_loop.simps) simp
    also have "\<dots> = Returns (?s1\<lparr>Config := (Config ?s1)\<lparr>retstr :=
        take (field + 1) (retstr (Config ?s1)) @ replicate (?n - (field + 1)) None @
        drop ?n (retstr (Config ?s1))\<rparr>\<rparr>)"
      using True lt "1.prems" by (intro "1.IH") simp_all
    also have "take (field + 1) (retstr (Config ?s1)) @ replicate (?n - (field + 1)) None @
        drop ?n (retstr (Config ?s1)) =
        take field ?ps @ replicate (?n - field) None @ drop ?n ?ps"
    proof -
      have "take (field + 1) (?ps[field := None]) = take field ?ps @ [None]"
        using lt by (simp add: take_Suc_conv_app_nth)
      moreover have "replicate (?n - field) None = None # replicate (?n - (field + 1)) (None :: pointer)"
        using True by (cases "?n - field") simp_all
      moreover have "drop ?n (?ps[field := None]) = drop ?n ?ps"
        using True by simp
      ultimately show ?thesis by simp
    qed
    finally show ?thesis by (simp add: set_retstr_def)
  qed
qed

lemma length_release [simp]: "length (fold (\<lambda>a h. h[a := None]) as h) = length h"
  by (induction as arbitrary: h) simp_all

lemma nth_release:
  "i < length h \<Longrightarrow>
   fold (\<lambda>a h. h[a := None]) as h ! i = (if i \<in> set as then None else h ! i)"
  by (induction as arbitrary: h) (auto simp: nth_list_update)

lemma drop_buffers_step:
  assumes "field < length ps"
  shows "buffers (drop field ps) =
    (case ps ! field of None \<Rightarrow> [] | Some a \<Rightarrow> [a]) @ buffers (drop (field + 1) ps)"
proof -
  have "drop field ps = ps ! field # drop (field + 1) ps"
    using assms by (simp add: Cons_nth_drop_Suc)
  then show ?thesis by (cases "ps ! field") simp_all
qed

lemma window_step:
  assumes "field < n" "n \<le> length ps"
  shows "take (n - field) (drop field ps) = ps ! field # take (n - (field + 1)) (drop (field + 1) ps)"
proof -
  from assms have "drop field ps = ps ! field # drop (field + 1) ps"
    by (simp add: Cons_nth_drop_Suc)
  moreover from assms obtain k where "n - field = Suc k" "n - (field + 1) = k"
    by (cases "n - field") auto
  ultimately show ?thesis by simp
qed

lemma Free_loop_slots:
  "field \<le> MAX_RETURN_STRINGS X \<Longrightarrow> MAX_RETURN_STRINGS X \<le> length (retstr (Config s)) \<Longrightarrow>
   distinct (buffers (take (MAX_RETURN_STRINGS X - field) (drop field (retstr (Config s))))) \<Longrightarrow>
   list_all (allocated s)
     (buffers (take (MAX_RETURN_STRINGS X - field) (drop field (retstr (Config s))))) \<Longrightarrow>
   Free_loop X field s =
     Returns (s\<lparr>Config := (Config s)\<lparr>retstr :=
                  take field (retstr (Config s)) @ replicate (MAX_RETURN_STRINGS X - field) None @
                  drop (MAX_RETURN_STRINGS X) (retstr (Config s))\<rparr>,
                heap := fold (\<lambda>a h. h[a := None])
                  (buffers (take (MAX_RETURN_STRINGS X - field) (drop field (retstr (Config s)))))
                  (heap s)\<rparr>)"
proof (induction X field s rule: Free_loop.induct)
  case (1 X field s)
  let ?ps = "retstr (Config s)"
  let ?n = "MAX_RETURN_STRINGS X"
  show ?case
  proof (cases "field < ?n")
    case False
    with "1.prems" have "field = ?n" by simp
    with "1.prems" show ?thesis by (subst Free_loop.simps) simp
  next
    case True
    with "1.prems" have lt: "field < length ?ps" by simp
    have pad: "replicate (?n - field) None = None # replicate (?n - (field + 1)) (None :: pointer)"
      using True by (cases "?n - field") simp_all
    note win = window_step [OF True "1.prems"(2)]
    let ?W' = "take (?n - (field + 1)) (drop (field + 1) ?ps)"
    show ?thesis
    proof (cases "?ps ! field")
      case None
      have step: "buffers (take (?n - field) (drop field ?ps)) = buffers ?W'"
        using win None by simp
      have "Free_loop X field s = Free_loop X (field + 1) s"
        using True lt None by (subst Free_loop.simps) simp
      also have "\<dots> = Returns (s\<lparr>Config := (Config s)\<lparr>retstr :=
                  take (field + 1) ?ps @ replicate (?n - (field + 1)) None @ drop ?n ?ps\<rparr>,
                heap := fold (\<lambda>a h. h[a := None]) (buffers ?W') (heap s)\<rparr>)"
        using True lt None "1.prems" step by (intro "1.IH"(1)) simp_all
      also have "take (field + 1) ?ps @ replicate (?n - (field + 1)) None @ drop ?n ?ps =
          take field ?ps @ replicate (?n - field) None @ drop ?n ?ps"
        using lt None pad by (simp add: take_Suc_conv_app_nth)
      finally show ?thesis by (simp add: step)
    next
      case (Some a)
      have step: "buffers (take (?n - field) (drop field ?ps)) = a # buffers ?W'"
        using win Some by simp
      with "1.prems" have al: "allocated s a" and
        rest: "a \<notin> set (buffers ?W')" "distinct (buffers ?W')" "list_all (allocated s) (buffers ?W')"
        by simp_all
      let ?s1 = "s\<lparr>heap := (heap s)[a := None]\<rparr>"
      let ?s2 = "set_retstr field None ?s1"
      have free: "c_free a s = Returns ?s1"
        using al by (simp add: c_free_def)
      have d2: "take (?n - (field + 1)) (drop (field + 1) (retstr (Config ?s2))) = ?W'"
        "drop ?n (retstr (Config ?s2)) = drop ?n ?ps"
        using True by simp_all
      have al2: "list_all (allocated ?s2) (buffers ?W')"
        unfolding list_all_iff
      proof
        fix x
        assume x: "x \<in> set (buffers ?W')"
        with rest(3) have "allocated s x" by (simp add: list_all_iff)
        moreover from x rest(1) have "x \<noteq> a" by auto
        ultimately show "allocated ?s2 x"
          by (auto simp: allocated_def block_at_def nth_list_update split: if_splits)
      qed
      have "Free_loop X field s = Free_loop X (field + 1) ?s2"
        using True lt Some free by (subst Free_loop.simps) simp
      also have "\<dots> = Returns (?s2\<lparr>Config := (Config ?s2)\<lparr>retstr :=
                  take (field + 1) (retstr (Config ?s2)) @ replicate (?n - (field + 1)) None @
                  drop ?n (retstr (Config ?s2))\<rparr>,
                heap := fold (\<lambda>a h. h[a := None])
                          (buffers (take (?n - (field + 1)) (drop (field + 1) (retstr (Config ?s2)))))
                          (heap ?s2)\<rparr>)"
        using True lt Some free "1.prems" rest al2 d2
        by (intro "1.IH"(2)) simp_all
      also have "take (field + 1) (retstr (Config ?s2)) @ replicate (?n - (field + 1)) None @
          drop ?n (retstr (Config ?s2)) =
          take field ?ps @ replicate (?n - field) None @ drop ?n ?ps"
        using lt True pad by (simp add: take_Suc_conv_app_nth)
      finally show ?thesis by (simp add: step d2 set_retstr_def)
    qed
  qed
qed

lemma Connect_handles_slots:
  assumes "Connect_handles X s = Returns (e, s')"
  shows "retstr (Config s') = retstr (Config s) \<and> heap s' = heap s"
  using assms unfolding Connect_handles_def Let_def
  by (auto split: if_splits dest!: log_and_return_Returns simp: logged_def)

section \<open>Quoting\<close>

declare QuoteString_loop.simps [simp del]

lemma collapse_escape: "collapse (escape c @ rest) = c # collapse rest"
  by (cases rest) (simp_all add: escape_def)

lemma collapse_escaped: "collapse (concat (map escape s)) = s"
  by (induction s) (simp_all add: collapse_escape)

lemma unquote_quoted: "unquote (quoted s) = Some s"
  by (simp add: unquote_def quoted_def collapse_escaped butlast_append)

lemma length_escaped: "length (concat (map escape s)) \<le> 2 * length s"
  by (induction s) (simp_all add: escape_def)

lemma NUL_notin_escaped: "NUL \<notin> set s \<Longrightarrow> NUL \<notin> set (concat (map escape s))"
  by (induction s) (auto simp: escape_def NUL_def)

lemma NUL_notin_cstring: "NUL \<notin> set (cstring bs)"
  unfolding cstring_def by (induction bs) auto

lemma cstring_eq_take: "cstring bs = take (strlen bs) bs"
  unfolding strlen_def cstring_def by (induction bs) auto

lemma strlen_le: "strlen bs \<le> length bs"
  unfolding strlen_def cstring_def by (rule length_takeWhile_le)

lemma cstring_terminated: "NUL \<notin> set q \<Longrightarrow> cstring (q @ NUL # rest) = q"
  unfolding cstring_def by (induction q) auto

lemma store_conv:
  "pos < length e \<Longrightarrow> store e pos c = Some (take pos e @ c # drop (pos + 1) e, pos + 1)"
  by (simp add: store_def upd_conv_take_nth_drop)

lemma QuoteString_loop_result:
  "i \<le> len \<Longrightarrow> len \<le> length string \<Longrightarrow> pos + 2 * (len - i) \<le> length e \<Longrightarrow>
   QuoteString_loop string len i e pos =
     Some (take pos e @ concat (map escape (take (len - i) (drop i string))) @
             drop (pos + length (concat (map escape (take (len - i) (drop i string))))) e,
           pos + length (concat (map escape (take (len - i) (drop i string)))))"
proof (induction string len i e pos rule: QuoteString_loop.induct)
  case (1 string len i e pos)
  show ?case
  proof (cases "i < len")
    case False
    with "1.prems" show ?thesis by (subst QuoteString_loop.simps) simp
  next
    case True
    let ?c = "string ! i"
    let ?Q' = "concat (map escape (take (len - (i + 1)) (drop (i + 1) string)))"
    have unfold: "take (len - i) (drop i string) = ?c # take (len - (i + 1)) (drop (i + 1) string)"
    proof -
      from True "1.prems" have "i < length string" by simp
      then have "drop i string = ?c # drop (i + 1) string"
        by (simp add: Cons_nth_drop_Suc)
      moreover from True obtain k where "len - i = Suc k" "len - (i + 1) = k"
        by (cases "len - i") auto
      ultimately show ?thesis by simp
    qed
    from True "1.prems" have room: "pos + 2 + 2 * (len - (i + 1)) \<le> length e"
      by simp
    show ?thesis
    proof (cases "?c = CHR 0x22 \<or> ?c = CHR 0x5C")
      case special: True
      let ?e1 = "take pos e @ CHR 0x5C # drop (pos + 1) e"
      let ?e2 = "take (pos + 1) ?e1 @ ?c # drop (pos + 1 + 1) ?e1"
      have s1: "store e pos (CHR 0x5C) = Some (?e1, pos + 1)"
        using room by (intro store_conv) simp
      have s2: "store ?e1 (pos + 1) ?c = Some (?e2, pos + 1 + 1)"
        using room by (intro store_conv) simp
      have e2: "?e2 = take pos e @ [CHR 0x5C, ?c] @ drop (pos + 2) e"
        using room by (simp add: take_Suc_conv_app_nth nth_append)
      have "QuoteString_loop string len i e pos = QuoteString_loop string len (i + 1) ?e2 (pos + 1 + 1)"
        using True special s1 s2 by (subst QuoteString_loop.simps) simp
      also have "\<dots> = Some (take (pos + 1 + 1) ?e2 @ ?Q' @ drop (pos + 1 + 1 + length ?Q') ?e2,
          pos + 1 + 1 + length ?Q')"
        using True special s1 s2 "1.prems" room
        by (intro "1.IH" [of "(?e1, pos + 1)" ?e1 "pos + 1" "(?e2, pos + 1 + 1)" ?e2 "pos + 1 + 1"])
          simp_all
      also have "take (pos + 1 + 1) ?e2 = take pos e @ [CHR 0x5C, ?c]"
        using room by (simp add: e2)
      also have "drop (pos + 1 + 1 + length ?Q') ?e2 = drop (pos + 2 + length ?Q') e"
        using room by (simp add: e2 ac_simps)
      finally show ?thesis
        using special by (simp add: unfold escape_def [of ?c])
    next
      case plain: False
      let ?e2 = "take pos e @ ?c # drop (pos + 1) e"
      have s2: "store e pos ?c = Some (?e2, pos + 1)"
        using room by (intro store_conv) simp
      have "QuoteString_loop string len i e pos = QuoteString_loop string len (i + 1) ?e2 (pos + 1)"
        using True plain s2 by (subst QuoteString_loop.simps) simp
      also have "\<dots> = Some (take (pos + 1) ?e2 @ ?Q' @ drop (pos + 1 + length ?Q') ?e2,
          pos + 1 + length ?Q')"
        using True plain s2 "1.prems" room
        by (intro "1.IH" [of "(e, pos)" e pos "(?e2, pos + 1)" ?e2 "pos + 1"]) simp_all
      also have "take (pos + 1) ?e2 = take pos e @ [?c]"
        using room by simp
      also have "drop (pos + 1 + length ?Q') ?e2 = drop (pos + 1 + length ?Q') e"
        using room by (simp add: ac_simps)
      finally show ?thesis
        using plain by (simp add: unfold escape_def [of ?c])
    qed
  qed
qed

lemma QuoteString_fill_result:
  assumes len: "length buf = strlen string * 2 + 3"
  shows "\<exists>rest. QuoteString_fill string buf = Some (quoted (cstring string) @ NUL # rest) \<and>
    length (quoted (cstring string) @ NUL # rest) = length buf"
proof -
  let ?len = "strlen string"
  let ?Q = "concat (map escape (cstring string))"
  let ?e1 = "take 0 buf @ CHR 0x22 # drop (0 + 1) buf"
  let ?e2 = "take 1 ?e1 @ ?Q @ drop (1 + length ?Q) ?e1"
  let ?pos2 = "1 + length ?Q"
  let ?e3 = "take ?pos2 ?e2 @ CHR 0x22 # drop (?pos2 + 1) ?e2"
  let ?e4 = "take (?pos2 + 1) ?e3 @ NUL # drop (?pos2 + 1 + 1) ?e3"
  have Q: "length ?Q \<le> 2 * ?len"
    using length_escaped [of "cstring string"] by (simp add: strlen_def)
  have s1: "store buf 0 (CHR 0x22) = Some (?e1, 0 + 1)"
    using len by (intro store_conv) simp
  have l1: "length ?e1 = length buf"
    using len by simp
  have loop: "QuoteString_loop string ?len 0 ?e1 1 = Some (?e2, ?pos2)"
    using QuoteString_loop_result [of 0 ?len string 1 ?e1] len strlen_le [of string]
    by (simp add: cstring_eq_take)
  have l2: "length ?e2 = length buf"
    using len Q by simp
  have s3: "store ?e2 ?pos2 (CHR 0x22) = Some (?e3, ?pos2 + 1)"
    using l2 len Q by (intro store_conv) simp
  have l3: "length ?e3 = length buf"
    using l2 len Q by simp
  have s4: "store ?e3 (?pos2 + 1) NUL = Some (?e4, ?pos2 + 1 + 1)"
    using l3 len Q by (intro store_conv) simp
  have fill: "QuoteString_fill string buf = Some ?e4"
    using s1 loop s3 s4 by (simp add: QuoteString_fill_def Let_def)
  have "take ?pos2 ?e2 = CHR 0x22 # ?Q"
    using len by simp
  then have "take (?pos2 + 1) ?e3 = quoted (cstring string)"
    by (simp add: quoted_def)
  then have "?e4 = quoted (cstring string) @ NUL # drop (?pos2 + 1 + 1) ?e3"
    by simp
  moreover have "length ?e4 = length buf"
    using l3 len Q by simp
  ultimately show ?thesis using fill by metis
qed

lemma cstring_quoted: "cstring (quoted (cstring bs) @ NUL # rest) = quoted (cstring bs)"
proof (rule cstring_terminated)
  show "NUL \<notin> set (quoted (cstring bs))"
    using NUL_notin_escaped [OF NUL_notin_cstring, of bs]
    by (simp add: quoted_def) (simp add: NUL_def)
qed

section \<open>Failure branches\<close>



lemma diag_last_unique:
  assumes "diag_last X ht h t n" and "diag_last X ht h t m"
  shows "n = m"
proof (rule ccontr)
  assume "n \<noteq> m"
  then consider "n < m" | "m < n" by linarith
  then show False
  proof cases
    case 1
    with assms(2) have "ret (diag_record X ht h t n) = SQL_SUCCESS"
      by (simp add: diag_last_def list_all_iff)
    with assms(1) show False by (simp add: diag_last_def)
  next
    case 2
    with assms(1) have "ret (diag_record X ht h t m) = SQL_SUCCESS"
      by (simp add: diag_last_def list_all_iff)
    with assms(2) show False by (simp add: diag_last_def)
  qed
qed

lemma diag_last_finite:
  "diag_last X ht h t n \<Longrightarrow> diag_finite X ht h t"
  by (auto simp: diag_last_def diag_finite_def diag_record_def)

lemma diag_finite_last:
  assumes "diag_finite X ht h t"
  shows "\<exists>n. diag_last X ht h t n"
proof -
  define P where "P n \<longleftrightarrow> ret (diag_record X ht h t n) \<noteq> SQL_SUCCESS" for n
  from assms have "\<exists>n. P n"
    by (simp add: diag_finite_def diag_record_def P_def)
  then have "\<exists>n. P n \<and> (\<forall>m < n. \<not> P m)"
    by (simp only: exists_least_iff [symmetric])
  then obtain n where "P n" "\<forall>m < n. \<not> P m"
    by blast
  then have "diag_last X ht h t n"
    by (simp add: diag_last_def list_all_iff P_def)
  then show ?thesis ..
qed




lemma fails_loudlyD:
  assumes "fails_loudly X ht h message v s out" and n: "diag_last X ht h (calls s) n"
  shows "out = Returns (v, after_diagnostics X ht h message n s)"
proof -
  from diag_last_finite [OF n] assms(1) obtain m where
    m: "diag_last X ht h (calls s) m" and
    out: "out = Returns (v, after_diagnostics X ht h message m s)"
    unfolding fails_loudly_def by blast
  from diag_last_unique [OF n m] out show ?thesis by simp
qed


lemma bad_driver_reply [simp]:
  "\<not> is_diag_call c \<Longrightarrow> reply (sample_externals bad_driver) c s = sample_reply\<lparr>ret := SQL_ERROR\<rparr>"
  by (cases c) (simp_all add: reply_def bad_driver_def is_diag_call_def)

lemma failing_driver_reply [simp]:
  "\<not> is_diag_call c \<Longrightarrow>
   reply (sample_externals (failing_driver bad)) c s =
     (if bad c then sample_reply\<lparr>ret := SQL_ERROR\<rparr> else sample_reply)"
  by (cases c) (simp_all add: reply_def failing_driver_def is_diag_call_def)

lemma diag_finite_failing [simp]:
  "diag_finite (sample_externals (failing_driver bad)) ht h t"
  unfolding diag_finite_def
  by (rule exI [of _ 1])
    (simp add: failing_driver_def diag_reply_def SQL_NO_DATA_def SQL_SUCCESS_def)

lemma is_diag_call_simps [simp]:
  "is_diag_call (SQLGetDiagRec ht h n)" "\<not> is_diag_call (SQLAllocHandle ht h)"
  "\<not> is_diag_call (SQLSetEnvAttr h)" "\<not> is_diag_call (SQLConnect h a b c)"
  "\<not> is_diag_call (SQLDisconnect h)" "\<not> is_diag_call (SQLFreeHandle ht h)"
  "\<not> is_diag_call (SQLExecDirect h q)" "\<not> is_diag_call (SQLFetch h)"
  "\<not> is_diag_call (SQLGetData h col ty len)" "\<not> is_diag_call (SQLRowCount h)"
  by (simp_all add: is_diag_call_def)

lemma fails_loudly_unique:
  assumes "fails_loudly X ht h message v s out" and "fails_loudly X ht h message v s out'"
  shows "out = out'"
proof (cases "diag_finite X ht h (calls s)")
  case True
  from diag_finite_last [OF this] obtain n where n: "diag_last X ht h (calls s) n" ..
  from fails_loudlyD [OF assms(1) n] fails_loudlyD [OF assms(2) n] show ?thesis by simp
next
  case False
  with assms diag_last_finite [of X ht h "calls s"] show ?thesis
    unfolding fails_loudly_def by blast
qed



lemma calls_Connect_world [simp]: "calls (Connect_world X s k) = Connect_calls X s k"
  by (simp add: Connect_world_def)






section \<open>The slots own their buffers\<close>

lemma buffers_append [simp]: "buffers (xs @ ys) = buffers xs @ buffers ys"
  by (induction xs rule: buffers.induct) simp_all

lemma buffers_split:
  assumes "f < length ps"
  shows "buffers ps = buffers (take f ps) @ buffers [ps ! f] @ buffers (drop (Suc f) ps)"
proof -
  have "ps = take f ps @ [ps ! f] @ drop (Suc f) ps"
    using assms by (simp add: Cons_nth_drop_Suc)
  then have "buffers ps = buffers (take f ps @ [ps ! f] @ drop (Suc f) ps)"
    by simp
  then show ?thesis by (simp only: buffers_append)
qed

lemma buffers_update:
  assumes "f < length ps"
  shows "buffers (ps[f := p]) = buffers (take f ps) @ buffers [p] @ buffers (drop (Suc f) ps)"
  using buffers_split [of f "ps[f := p]"] assms by simp

lemma slots_owned_frame:
  "Config s' = Config s \<Longrightarrow> allocated s' = allocated s \<Longrightarrow> slots_owned s' = slots_owned s"
  by (simp add: slots_owned_def)

lemma slots_owned_empty:
  assumes "all_empty s"
  shows "slots_owned s"
proof -
  from assms have "buffers (retstr (Config s)) = []"
    unfolding all_empty_def by (metis buffers_replicate_None)
  then show ?thesis by (simp add: slots_owned_def)
qed

lemma allocated_lt: "allocated s a \<Longrightarrow> a < length (heap s)"
  by (simp add: allocated_def block_at_def split: if_splits)

lemma GetString_allocate_owned:
  assumes own: "slots_owned s" and r: "GetString_allocate X field n s = Returns (p, s')"
  shows "slots_owned s'"
proof -
  let ?ps = "retstr (Config s)"
  let ?f = "unat field"
  let ?B1 = "buffers (take ?f ?ps)"
  let ?B2 = "buffers (drop (Suc ?f) ?ps)"
  from r have lt: "?f < length ?ps"
    by (auto simp: GetString_allocate_def split: if_splits)
  note split = buffers_split [OF lt]
  note upd = buffers_update [OF lt]
  from own have d: "distinct (buffers ?ps)" and al: "\<forall>x \<in> set (buffers ?ps). allocated s x"
    by (simp_all add: slots_owned_def list_all_iff)
  have fresh: "length (heap s) \<notin> set (buffers ?ps)"
    using al allocated_lt by fastforce
  show ?thesis
  proof (cases "?ps ! ?f")
    case None
    then have B: "buffers ?ps = ?B1 @ ?B2" using split by simp
    show ?thesis
    proof (cases "malloc_ok X (length (heap s)) (unat (n + 1))")
      case False
      with lt None have "GetString_allocate X field n s = Returns (None, set_retstr ?f None s)"
        by (simp add: GetString_allocate_def c_malloc_def)
      from trans [OF r [symmetric] this] have "s' = set_retstr ?f None s"
        by simp
      moreover have "?ps[?f := None] = ?ps"
        using None lt by (simp add: list_update_same_conv)
      ultimately show ?thesis using own by (simp add: slots_owned_def)
    next
      case True
      let ?a = "length (heap s)"
      let ?s1 = "s\<lparr>heap := heap s @ [Some (replicate (unat (n + 1)) NUL)]\<rparr>"
      from True lt None
      have "GetString_allocate X field n s = Returns (Some ?a, set_retstr ?f (Some ?a) ?s1)"
        by (simp add: GetString_allocate_def c_malloc_def)
      from trans [OF r [symmetric] this] have s': "s' = set_retstr ?f (Some ?a) ?s1"
        by simp
      have B': "buffers (retstr (Config s')) = ?B1 @ [?a] @ ?B2"
        using upd [of "Some ?a"] by (simp add: s')
      have "distinct (?B1 @ [?a] @ ?B2)"
        using d fresh B by auto
      moreover have "allocated s' x" if "x \<in> set (?B1 @ [?a] @ ?B2)" for x
      proof (cases "x = ?a")
        case True
        then show ?thesis by (simp add: s' allocated_def block_at_def)
      next
        case False
        with that B al have ax: "allocated s x" by auto
        then have "x < length (heap s)" by (rule allocated_lt)
        then have "block_at s' x = block_at s x"
          by (simp add: s' block_at_def nth_append)
        with ax show ?thesis by (simp add: allocated_def)
      qed
      ultimately show ?thesis
        unfolding slots_owned_def B' list_all_iff by blast
    qed
  next
    case (Some a0)
    then have B: "buffers ?ps = ?B1 @ [a0] @ ?B2" using split by simp
    with al have a0: "allocated s a0" by simp
    from d B have nin: "a0 \<notin> set ?B1" "a0 \<notin> set ?B2" and d12: "distinct (?B1 @ ?B2)"
      by auto
    show ?thesis
    proof (cases "malloc_ok X (length (heap s)) (unat (n + 1))")
      case False
      with lt Some a0
      have "GetString_allocate X field n s = Returns (None, set_retstr ?f None s)"
        by (simp add: GetString_allocate_def c_realloc_def)
      from trans [OF r [symmetric] this] have s': "s' = set_retstr ?f None s"
        by simp
      have B': "buffers (retstr (Config s')) = ?B1 @ ?B2"
        using upd [of None] by (simp add: s')
      have "allocated s' x" if "x \<in> set (?B1 @ ?B2)" for x
        using that B al by (auto simp: s')
      then show ?thesis
        unfolding slots_owned_def B' list_all_iff using d12 by blast
    next
      case True
      let ?a = "length (heap s)"
      from a0 obtain old where old: "block_at s a0 = Some old"
        by (auto simp: allocated_def)
      let ?s1 = "s\<lparr>heap := (heap s)[a0 := None] @
          [Some (take (unat (n + 1)) old @ replicate (unat (n + 1) - length old) NUL)]\<rparr>"
      from True lt Some a0 old
      have "GetString_allocate X field n s = Returns (Some ?a, set_retstr ?f (Some ?a) ?s1)"
        by (simp add: GetString_allocate_def c_realloc_def)
      from trans [OF r [symmetric] this] have s': "s' = set_retstr ?f (Some ?a) ?s1"
        by simp
      have B': "buffers (retstr (Config s')) = ?B1 @ [?a] @ ?B2"
        using upd [of "Some ?a"] by (simp add: s')
      have "distinct (?B1 @ [?a] @ ?B2)"
        using d12 fresh B by auto
      moreover have "allocated s' x" if "x \<in> set (?B1 @ [?a] @ ?B2)" for x
      proof (cases "x = ?a")
        case True
        then show ?thesis by (simp add: s' allocated_def block_at_def nth_append)
      next
        case False
        with that have x: "x \<in> set ?B1 \<union> set ?B2" by auto
        with B al have ax: "allocated s x" by auto
        then have "x < length (heap s)" by (rule allocated_lt)
        moreover from x nin have "x \<noteq> a0" by auto
        ultimately have "block_at s' x = block_at s x"
          by (simp add: s' block_at_def nth_append)
        with ax show ?thesis by (simp add: allocated_def)
      qed
      ultimately show ?thesis
        unfolding slots_owned_def B' list_all_iff by blast
    qed
  qed
qed

lemma allocated_heap_cong: "heap s' = heap s \<Longrightarrow> allocated s' = allocated s"
  by (rule ext) (simp add: allocated_def block_at_def)

lemma GetString_fetch_frame:
  assumes "GetString_fetch X res field n a s = Returns (p, s')"
  shows "Config s' = Config s \<and> allocated s' = allocated s"
proof (cases "SQL_SUCCEEDED (ret (reply X (SQLGetData (odbc res) (ucast (field + 1)) SQL_C_CHAR (n + 1)) s))")
  case False
  with assms have "log_and_return X SQL_HANDLE_STMT (odbc res) ''SQLGetData(string) failed'' None
      (record_call (SQLGetData (odbc res) (ucast (field + 1)) SQL_C_CHAR (n + 1)) s) = Returns (p, s')"
    by (simp add: GetString_fetch_def Let_def)
  from log_and_return_Returns [OF this] have "Config s' = Config s" "heap s' = heap s"
    by (simp_all add: logged_def)
  then show ?thesis using allocated_heap_cong [of s' s] by simp
next
  case True
  with assms obtain buf where buf: "block_at s a = Some buf" and
    s': "heap s' = (heap s)[a := Some (write_cstring
        (out_text (reply X (SQLGetData (odbc res) (ucast (field + 1)) SQL_C_CHAR (n + 1)) s)) buf)]"
      "Config s' = Config s"
    by (auto simp: GetString_fetch_def Let_def split: option.splits)
  have "allocated s' x = allocated s x" for x
    using buf by (cases "x = a") (auto simp: allocated_def block_at_def s' split: if_splits)
  then show ?thesis using s'(2) by auto
qed

lemma GetString_owned:
  assumes own: "slots_owned s" and r: "SMSDODBC_GetString X res field s = Returns (p, s')"
  shows "slots_owned s'"
proof -
  let ?c = "SQLGetData (odbc res) (ucast (field + 1)) SQL_C_CHAR 0"
  let ?s1 = "record_call ?c s"
  let ?n = "out_len (reply X ?c s)"
  have own1: "slots_owned ?s1"
    using own by (simp add: slots_owned_def)
  show ?thesis
  proof (cases "unat field > MAX_RETURN_STRINGS X")
    case True
    with r own show ?thesis
      by (auto simp: SMSDODBC_GetString_def slots_owned_def)
  next
    case f: False
    show ?thesis
    proof (cases "SQL_SUCCEEDED (ret (reply X ?c s))")
      case False
      with r f have "log_and_return X SQL_HANDLE_STMT (odbc res) ''SQLGetData(string,NULL) failed''
          None ?s1 = Returns (p, s')"
        by (simp add: SMSDODBC_GetString_def Let_def)
      from log_and_return_Returns [OF this] have "Config s' = Config ?s1" "heap s' = heap ?s1"
        by (simp_all add: logged_def)
      with own1 show ?thesis
        by (simp add: slots_owned_frame [of s' ?s1] allocated_heap_cong [of s' ?s1])
    next
      case ok: True
      show ?thesis
      proof (cases "?n = SQL_NULL_DATA")
        case True
        with r f ok own show ?thesis
          by (auto simp: SMSDODBC_GetString_def Let_def slots_owned_def)
      next
        case False
        with r f ok obtain q s2 where
          al: "GetString_allocate X field ?n ?s1 = Returns (q, s2)"
          by (auto simp: SMSDODBC_GetString_def Let_def split: outcome.splits)
        from GetString_allocate_owned [OF own1 al] have own2: "slots_owned s2" .
        show ?thesis
        proof (cases q)
          case None
          with r f ok False al have "s' = SMSD_Log DEBUG_ERROR (Log_AllocFailed field (?n + 1)) s2"
            by (simp add: SMSDODBC_GetString_def Let_def)
          with own2 show ?thesis by (simp add: slots_owned_def)
        next
          case (Some a)
          with r f ok False al have "GetString_fetch X res field ?n a s2 = Returns (p, s')"
            by (simp add: SMSDODBC_GetString_def Let_def)
          from GetString_fetch_frame [OF this] own2 show ?thesis
            by (simp add: slots_owned_frame [of s' s2])
        qed
      qed
    qed
  qed
qed

lemma distinct_buffers_nth:
  assumes d: "distinct (buffers ps)" and j: "j < length ps" and ij: "i < j"
    and x: "ps ! i = Some x" and y: "ps ! j = Some y"
  shows "x \<noteq> y"
proof -
  have "(take j ps) ! i = Some x" using ij x by simp
  moreover have "i < length (take j ps)" using ij j by simp
  ultimately have "Some x \<in> set (take j ps)" by (metis nth_mem)
  then have "x \<in> set (buffers (take j ps))" by (simp add: set_buffers)
  moreover have "distinct (buffers (take j ps) @ [y] @ buffers (drop (Suc j) ps))"
    using d buffers_split [OF j] y by simp
  ultimately show ?thesis by auto
qed

lemma owned_slots_differ:
  assumes "slots_owned s" "i < length (retstr (Config s))" "j < length (retstr (Config s))"
    "i \<noteq> j" "retstr (Config s) ! i = Some x" "retstr (Config s) ! j = Some y"
  shows "x \<noteq> y"
proof (cases "i < j")
  case True
  with assms show ?thesis
    using distinct_buffers_nth [of "retstr (Config s)" j i x y] by (simp add: slots_owned_def)
next
  case False
  with assms have "j < i" by simp
  with assms show ?thesis
    using distinct_buffers_nth [of "retstr (Config s)" i j y x] by (auto simp: slots_owned_def)
qed

lemma owned_slot_allocated:
  assumes "slots_owned s" "i < length (retstr (Config s))" "retstr (Config s) ! i = Some x"
  shows "allocated s x"
proof -
  from assms(2,3) have "Some x \<in> set (retstr (Config s))" by (metis nth_mem)
  then have "x \<in> set (buffers (retstr (Config s)))" by (simp add: set_buffers)
  with assms(1) show ?thesis by (simp add: slots_owned_def list_all_iff)
qed

lemma GetString_allocate_other_slot:
  assumes own: "slots_owned s" and f: "f < length (retstr (Config s))"
    and a: "retstr (Config s) ! f = Some a" and ne: "f \<noteq> unat field"
    and r: "GetString_allocate X field n s = Returns (p, s')"
  shows "retstr (Config s') ! f = Some a \<and> block_at s' a = block_at s a \<and> p \<noteq> Some a"
proof -
  let ?ps = "retstr (Config s)"
  let ?g = "unat field"
  from r have lt: "?g < length ?ps"
    by (auto simp: GetString_allocate_def split: if_splits)
  have al: "allocated s a" by (rule owned_slot_allocated [OF own f a])
  then have alt: "a < length (heap s)" by (rule allocated_lt)
  show ?thesis
  proof (cases "?ps ! ?g")
    case None
    show ?thesis
    proof (cases "malloc_ok X (length (heap s)) (unat (n + 1))")
      case False
      with lt None have "GetString_allocate X field n s = Returns (None, set_retstr ?g None s)"
        by (simp add: GetString_allocate_def c_malloc_def)
      from trans [OF r [symmetric] this] have "p = None" "s' = set_retstr ?g None s"
        by simp_all
      then show ?thesis using a ne by simp
    next
      case True
      let ?s1 = "s\<lparr>heap := heap s @ [Some (replicate (unat (n + 1)) NUL)]\<rparr>"
      from True lt None
      have "GetString_allocate X field n s =
          Returns (Some (length (heap s)), set_retstr ?g (Some (length (heap s))) ?s1)"
        by (simp add: GetString_allocate_def c_malloc_def)
      from trans [OF r [symmetric] this]
      have "p = Some (length (heap s))" "s' = set_retstr ?g (Some (length (heap s))) ?s1"
        by simp_all
      then show ?thesis using a ne alt by (simp add: block_at_def nth_append)
    qed
  next
    case (Some a0)
    have a0: "allocated s a0" by (rule owned_slot_allocated [OF own lt Some])
    have diff: "a \<noteq> a0" by (rule owned_slots_differ [OF own f lt ne a Some])
    show ?thesis
    proof (cases "malloc_ok X (length (heap s)) (unat (n + 1))")
      case False
      with lt Some a0
      have "GetString_allocate X field n s = Returns (None, set_retstr ?g None s)"
        by (simp add: GetString_allocate_def c_realloc_def)
      from trans [OF r [symmetric] this] have "p = None" "s' = set_retstr ?g None s"
        by simp_all
      then show ?thesis using a ne by simp
    next
      case True
      from a0 obtain old where old: "block_at s a0 = Some old"
        by (auto simp: allocated_def)
      let ?s1 = "s\<lparr>heap := (heap s)[a0 := None] @
          [Some (take (unat (n + 1)) old @ replicate (unat (n + 1) - length old) NUL)]\<rparr>"
      from True lt Some a0 old
      have "GetString_allocate X field n s =
          Returns (Some (length (heap s)), set_retstr ?g (Some (length (heap s))) ?s1)"
        by (simp add: GetString_allocate_def c_realloc_def)
      from trans [OF r [symmetric] this]
      have "p = Some (length (heap s))" "s' = set_retstr ?g (Some (length (heap s))) ?s1"
        by simp_all
      then show ?thesis using a ne alt diff by (simp add: block_at_def nth_append)
    qed
  qed
qed

lemma GetString_fetch_other_block:
  assumes "GetString_fetch X res field n q s = Returns (p, s')" and "a \<noteq> q"
  shows "Config s' = Config s \<and> block_at s' a = block_at s a"
proof (cases "SQL_SUCCEEDED (ret (reply X (SQLGetData (odbc res) (ucast (field + 1)) SQL_C_CHAR (n + 1)) s))")
  case False
  with assms have "log_and_return X SQL_HANDLE_STMT (odbc res) ''SQLGetData(string) failed'' None
      (record_call (SQLGetData (odbc res) (ucast (field + 1)) SQL_C_CHAR (n + 1)) s) = Returns (p, s')"
    by (simp add: GetString_fetch_def Let_def)
  from log_and_return_Returns [OF this] have "Config s' = Config s" "heap s' = heap s"
    by (simp_all add: logged_def)
  then show ?thesis by (simp add: block_at_def)
next
  case True
  with assms(1) obtain buf where
    s': "heap s' = (heap s)[q := Some (write_cstring
        (out_text (reply X (SQLGetData (odbc res) (ucast (field + 1)) SQL_C_CHAR (n + 1)) s)) buf)]"
      "Config s' = Config s"
    by (auto simp: GetString_fetch_def Let_def split: option.splits)
  with assms(2) show ?thesis by (simp add: block_at_def)
qed

text \<open>
  While the slots own their buffers, fetching the string of one field leaves the buffer
  of every other field where it is and as it is.
\<close>

lemma GetString_other_slot:
  assumes own: "slots_owned s" and f: "f < length (retstr (Config s))"
    and a: "retstr (Config s) ! f = Some a" and ne: "f \<noteq> unat field"
    and r: "SMSDODBC_GetString X res field s = Returns (p, s')"
  shows "retstr (Config s') ! f = Some a \<and> block_at s' a = block_at s a"
proof -
  let ?c = "SQLGetData (odbc res) (ucast (field + 1)) SQL_C_CHAR 0"
  let ?s1 = "record_call ?c s"
  let ?n = "out_len (reply X ?c s)"
  have own1: "slots_owned ?s1"
    using own by (simp add: slots_owned_def)
  show ?thesis
  proof (cases "unat field > MAX_RETURN_STRINGS X")
    case True
    with r a show ?thesis
      by (auto simp: SMSDODBC_GetString_def)
  next
    case g: False
    show ?thesis
    proof (cases "SQL_SUCCEEDED (ret (reply X ?c s))")
      case False
      with r g have "log_and_return X SQL_HANDLE_STMT (odbc res) ''SQLGetData(string,NULL) failed''
          None ?s1 = Returns (p, s')"
        by (simp add: SMSDODBC_GetString_def Let_def)
      from log_and_return_Returns [OF this] have "Config s' = Config ?s1" "heap s' = heap ?s1"
        by (simp_all add: logged_def)
      with a show ?thesis by (simp add: block_at_def)
    next
      case ok: True
      show ?thesis
      proof (cases "?n = SQL_NULL_DATA")
        case True
        with r g ok a show ?thesis
          by (auto simp: SMSDODBC_GetString_def Let_def)
      next
        case False
        with r g ok obtain q s2 where
          al: "GetString_allocate X field ?n ?s1 = Returns (q, s2)"
          by (auto simp: SMSDODBC_GetString_def Let_def split: outcome.splits)
        from GetString_allocate_other_slot [OF own1 _ _ ne al, of a] f a
        have keep: "retstr (Config s2) ! f = Some a" "block_at s2 a = block_at s a" "q \<noteq> Some a"
          by simp_all
        show ?thesis
        proof (cases q)
          case None
          with r g ok False al have "s' = SMSD_Log DEBUG_ERROR (Log_AllocFailed field (?n + 1)) s2"
            by (simp add: SMSDODBC_GetString_def Let_def)
          with keep show ?thesis by simp
        next
          case (Some b)
          with r g ok False al have "GetString_fetch X res field ?n b s2 = Returns (p, s')"
            by (simp add: SMSDODBC_GetString_def Let_def)
          moreover from keep(3) Some have "a \<noteq> b" by simp
          ultimately show ?thesis
            using GetString_fetch_other_block [of X res field ?n b s2 p s' a] keep by simp
        qed
      qed
    qed
  qed
qed

section \<open>SMSDODBC_NextRow\<close>

text \<open>
  Claim C2. When the fetch reports no-more-data, \<open>SMSDODBC_NextRow\<close> returns 0, the log is
  what it was and the fetch is the only API call made. When the fetch reports any other
  failure, and the driver's diagnostics for the statement are finite, it returns 0 and
  the log has grown by the error-severity line \<^verbatim>\<open>SQLFetch failed, ODBC diagnostics:\<close>
  and what follows it. When the fetch succeeds it returns 1.
\<close>

theorem NextRow_outcomes:
  "(ret (reply X (SQLFetch (odbc res)) s) = SQL_NO_DATA \<longrightarrow>
      (\<exists>s'. SMSDODBC_NextRow X res s = Returns (0, s') \<and> logs s' = logs s \<and>
         calls s' = SQLFetch (odbc res) # calls s)) \<and>
   (\<not> SQL_SUCCEEDED (ret (reply X (SQLFetch (odbc res)) s)) \<and>
    ret (reply X (SQLFetch (odbc res)) s) \<noteq> SQL_NO_DATA \<and>
    diag_finite X SQL_HANDLE_STMT (odbc res) (SQLFetch (odbc res) # calls s) \<longrightarrow>
      (\<exists>s' es. SMSDODBC_NextRow X res s = Returns (0, s') \<and>
         logs s' = logs s @ (DEBUG_ERROR, Log_Diagnostics ''SQLFetch failed'') # es)) \<and>
   (SQL_SUCCEEDED (ret (reply X (SQLFetch (odbc res)) s)) \<longrightarrow>
      (\<exists>s'. SMSDODBC_NextRow X res s = Returns (1, s') \<and> logs s' = logs s))"
proof (intro conjI impI)
  assume "ret (reply X (SQLFetch (odbc res)) s) = SQL_NO_DATA"
  then show "\<exists>s'. SMSDODBC_NextRow X res s = Returns (0, s') \<and> logs s' = logs s \<and>
      calls s' = SQLFetch (odbc res) # calls s"
    by (simp add: SMSDODBC_NextRow_def Let_def)
next
  assume a: "\<not> SQL_SUCCEEDED (ret (reply X (SQLFetch (odbc res)) s)) \<and>
    ret (reply X (SQLFetch (odbc res)) s) \<noteq> SQL_NO_DATA \<and>
    diag_finite X SQL_HANDLE_STMT (odbc res) (SQLFetch (odbc res) # calls s)"
  then have "diag_finite X SQL_HANDLE_STMT (odbc res) (calls (record_call (SQLFetch (odbc res)) s))"
    by simp
  from log_and_return_returns [OF this, of "''SQLFetch failed''" 0] a
  show "\<exists>s' es. SMSDODBC_NextRow X res s = Returns (0, s') \<and>
      logs s' = logs s @ (DEBUG_ERROR, Log_Diagnostics ''SQLFetch failed'') # es"
    by (auto simp: SMSDODBC_NextRow_def Let_def logged_def)
next
  assume "SQL_SUCCEEDED (ret (reply X (SQLFetch (odbc res)) s))"
  then show "\<exists>s'. SMSDODBC_NextRow X res s = Returns (1, s') \<and> logs s' = logs s"
    by (simp add: SMSDODBC_NextRow_def Let_def)
qed

theorem NextRow_outcomes_witness:
  "(ret (reply (sample_externals empty_driver) (SQLFetch (odbc sample_result)) sample_world) = SQL_NO_DATA \<and>
      (\<exists>s'. SMSDODBC_NextRow (sample_externals empty_driver) sample_result sample_world = Returns (0, s') \<and>
         logs s' = [] \<and> calls s' = [SQLFetch 7])) \<and>
   (ret (reply (sample_externals bad_driver) (SQLFetch (odbc sample_result)) sample_world) = SQL_ERROR \<and>
    diag_finite (sample_externals bad_driver) SQL_HANDLE_STMT (odbc sample_result)
      (SQLFetch (odbc sample_result) # calls sample_world) \<and>
      (\<exists>s' es. SMSDODBC_NextRow (sample_externals bad_driver) sample_result sample_world = Returns (0, s') \<and>
         logs s' = (DEBUG_ERROR, Log_Diagnostics ''SQLFetch failed'') # es)) \<and>
   (ret (reply (sample_externals good_driver) (SQLFetch (odbc sample_result)) sample_world) = SQL_SUCCESS \<and>
      (\<exists>s'. SMSDODBC_NextRow (sample_externals good_driver) sample_result sample_world = Returns (1, s') \<and>
         logs s' = []))"
  using NextRow_outcomes [of "sample_externals empty_driver" sample_result sample_world]
    NextRow_outcomes [of "sample_externals bad_driver" sample_result sample_world]
    NextRow_outcomes [of "sample_externals good_driver" sample_result sample_world]
  by (simp add: sample_world_def sample_result_def)

section \<open>SMSDODBC_GetNumber\<close>

text \<open>
  Claim C7. When the fetch succeeds, \<open>SMSDODBC_GetNumber\<close> returns the fetched SQLINTEGER
  widened to 64 bits with its sign, and logs nothing. When the fetch fails, and the
  driver's diagnostics for the statement are finite, it returns -1. So it returns -1 in
  two cases that the caller cannot tell apart: the fetch failed, or the value fetched is
  -1.
\<close>

theorem GetNumber_value_or_sentinel:
  "(SQL_SUCCEEDED (ret (long_fetch X res field s)) \<longrightarrow>
      (\<exists>v s'. SMSDODBC_GetNumber X res field s = Returns (v, s') \<and>
         sint v = sint (out_long (long_fetch X res field s)) \<and> logs s' = logs s)) \<and>
   (\<not> SQL_SUCCEEDED (ret (long_fetch X res field s)) \<and>
    diag_finite X SQL_HANDLE_STMT (odbc res) (long_call res field # calls s) \<longrightarrow>
      (\<exists>s'. SMSDODBC_GetNumber X res field s = Returns (- 1, s'))) \<and>
   (\<forall>v s'. SMSDODBC_GetNumber X res field s = Returns (v, s') \<longrightarrow>
      (v = - 1 \<longleftrightarrow>
         \<not> SQL_SUCCEEDED (ret (long_fetch X res field s)) \<or>
         out_long (long_fetch X res field s) = - 1))"
proof (intro conjI impI allI)
  assume "SQL_SUCCEEDED (ret (long_fetch X res field s))"
  then show "\<exists>v s'. SMSDODBC_GetNumber X res field s = Returns (v, s') \<and>
      sint v = sint (out_long (long_fetch X res field s)) \<and> logs s' = logs s"
    by (simp add: SMSDODBC_GetNumber_def long_fetch_def long_call_def Let_def)
next
  assume a: "\<not> SQL_SUCCEEDED (ret (long_fetch X res field s)) \<and>
    diag_finite X SQL_HANDLE_STMT (odbc res) (long_call res field # calls s)"
  then have "diag_finite X SQL_HANDLE_STMT (odbc res) (calls (record_call (long_call res field) s))"
    by simp
  from log_and_return_returns [OF this, of "''SQLGetData(long) failed''" "- 1"] a
  show "\<exists>s'. SMSDODBC_GetNumber X res field s = Returns (- 1, s')"
    by (auto simp: SMSDODBC_GetNumber_def long_fetch_def long_call_def Let_def)
next
  fix v s'
  assume r: "SMSDODBC_GetNumber X res field s = Returns (v, s')"
  show "v = - 1 \<longleftrightarrow>
      \<not> SQL_SUCCEEDED (ret (long_fetch X res field s)) \<or> out_long (long_fetch X res field s) = - 1"
  proof (cases "SQL_SUCCEEDED (ret (long_fetch X res field s))")
    case True
    with r show ?thesis
      by (auto simp: SMSDODBC_GetNumber_def long_fetch_def long_call_def Let_def)
  next
    case False
    with r have "log_and_return X SQL_HANDLE_STMT (odbc res) ''SQLGetData(long) failed'' (- 1)
        (record_call (long_call res field) s) = Returns (v, s')"
      by (simp add: SMSDODBC_GetNumber_def long_fetch_def long_call_def Let_def)
    from log_and_return_Returns [OF this] False show ?thesis by simp
  qed
qed

theorem GetNumber_value_or_sentinel_witness:
  "(SQL_SUCCEEDED (ret (long_fetch (sample_externals good_driver) sample_result 0 sample_world)) \<and>
      (\<exists>v s'. SMSDODBC_GetNumber (sample_externals good_driver) sample_result 0 sample_world =
           Returns (v, s') \<and> sint v = 42 \<and> logs s' = [])) \<and>
   (\<not> SQL_SUCCEEDED (ret (long_fetch (sample_externals bad_driver) sample_result 0 sample_world)) \<and>
    diag_finite (sample_externals bad_driver) SQL_HANDLE_STMT (odbc sample_result)
      (long_call sample_result 0 # calls sample_world) \<and>
      (\<exists>s'. SMSDODBC_GetNumber (sample_externals bad_driver) sample_result 0 sample_world =
           Returns (- 1, s'))) \<and>
   (SQL_SUCCEEDED (ret (long_fetch (sample_externals minus_one_driver) sample_result 0 sample_world)) \<and>
      (\<exists>v s'. SMSDODBC_GetNumber (sample_externals minus_one_driver) sample_result 0 sample_world =
           Returns (v, s') \<and> v = - 1))"
proof -
  note good = GetNumber_value_or_sentinel [of "sample_externals good_driver" sample_result 0 sample_world]
  note bad = GetNumber_value_or_sentinel [of "sample_externals bad_driver" sample_result 0 sample_world]
  note m1 = GetNumber_value_or_sentinel [of "sample_externals minus_one_driver" sample_result 0 sample_world]
  have 1: "SQL_SUCCEEDED (ret (long_fetch (sample_externals good_driver) sample_result 0 sample_world))"
    "out_long (long_fetch (sample_externals good_driver) sample_result 0 sample_world) = 42"
    by (simp_all add: long_fetch_def long_call_def)
  have 2: "\<not> SQL_SUCCEEDED (ret (long_fetch (sample_externals bad_driver) sample_result 0 sample_world))"
    by (simp add: long_fetch_def long_call_def)
  have 3: "SQL_SUCCEEDED (ret (long_fetch (sample_externals minus_one_driver) sample_result 0 sample_world))"
    "out_long (long_fetch (sample_externals minus_one_driver) sample_result 0 sample_world) = - 1"
    by (simp_all add: long_fetch_def long_call_def)
  from good 1 have "\<exists>v s'. SMSDODBC_GetNumber (sample_externals good_driver) sample_result 0 sample_world =
           Returns (v, s') \<and> sint v = 42 \<and> logs s' = []"
    by (simp add: sample_world_def)
  moreover from bad 2 have "\<exists>s'. SMSDODBC_GetNumber (sample_externals bad_driver) sample_result 0 sample_world =
           Returns (- 1, s')"
    by simp
  moreover from m1 3 have "\<exists>v s'. SMSDODBC_GetNumber (sample_externals minus_one_driver) sample_result 0 sample_world =
           Returns (v, s') \<and> v = - 1"
    by (metis (no_types, lifting))
  ultimately show ?thesis using 1 2 3 by simp
qed

section \<open>SMSDODBC_GetString\<close>

text \<open>
  Claim C1. For a field index greater than \<^verbatim>\<open>SMSD_ODBC_MAX_RETURN_STRINGS\<close>,
  \<open>SMSDODBC_GetString\<close> returns the null pointer and leaves the world as it was but for
  one more log line, the error-severity \<^verbatim>\<open>too many fields\<close> message: no slot of
  \<open>retstr\<close> is written, no block of the heap is touched and no API call is made. The
  same holds whatever the slots contain, so none of them is read.
\<close>

theorem GetString_too_many_fields:
  "unat field > MAX_RETURN_STRINGS X \<Longrightarrow>
     SMSDODBC_GetString X res field s =
       Returns (None, s\<lparr>logs := logs s @ [(DEBUG_ERROR, Log_TooManyFields field)]\<rparr>) \<and>
     SMSDODBC_GetString X res field (s\<lparr>Config := (Config s)\<lparr>retstr := slots\<rparr>\<rparr>) =
       Returns (None, s\<lparr>Config := (Config s)\<lparr>retstr := slots\<rparr>,
                        logs := logs s @ [(DEBUG_ERROR, Log_TooManyFields field)]\<rparr>)"
  by (simp add: SMSDODBC_GetString_def SMSD_Log_def)

theorem GetString_too_many_fields_witness:
  "unat (4 :: 32 word) > MAX_RETURN_STRINGS (sample_externals good_driver) \<and>
   SMSDODBC_GetString (sample_externals good_driver) sample_result 4 sample_world =
     Returns (None, sample_world\<lparr>logs := [(DEBUG_ERROR, Log_TooManyFields 4)]\<rparr>)"
  using GetString_too_many_fields [of "sample_externals good_driver" 4 sample_result sample_world]
  by (simp add: sample_externals_def sample_world_def)

text \<open>
  The guard lets the index \<^verbatim>\<open>SMSD_ODBC_MAX_RETURN_STRINGS\<close> itself through. In an array
  of that many slots the access that follows, once the length has been probed and the
  value is not null, is outside the array.
\<close>

lemma GetString_at_the_bound:
  assumes "unat field = MAX_RETURN_STRINGS X" and "retstr_declared X s"
    and "SQL_SUCCEEDED (ret (reply X (SQLGetData (odbc res) (ucast (field + 1)) SQL_C_CHAR 0) s))"
    and "out_len (reply X (SQLGetData (odbc res) (ucast (field + 1)) SQL_C_CHAR 0) s) \<noteq> SQL_NULL_DATA"
  shows "SMSDODBC_GetString X res field s = Undefined"
  using assms
  by (simp add: SMSDODBC_GetString_def GetString_allocate_def retstr_declared_def Let_def)

section \<open>SMSDODBC_GetBool\<close>

lemma GetNumber_minus_one_sample:
  "SMSDODBC_GetNumber (sample_externals minus_one_driver) sample_result 0 sample_world =
     Returns (- 1, record_call (long_call sample_result 0) sample_world)"
  by (simp add: SMSDODBC_GetNumber_def long_call_def Let_def)

lemma GetString_minus_one_sample:
  "SMSDODBC_GetString (sample_externals minus_one_driver) sample_result 0
     (record_call (long_call sample_result 0) sample_world) =
   Returns (Some 0,
     \<lparr>Config = \<lparr>host = ''host1'', user = ''user1'', password = ''pw1'', env = 0, dbc = 0,
                 retstr = [Some 0, None, None]\<rparr>,
      heap = [Some [CHR ''-'', CHR ''1'', CHR 0x00]],
      logs = [(DEBUG_INFO, Log_FieldString 0 ''-1'')],
      calls = [SQLGetData 7 1 SQL_C_CHAR 3, SQLGetData 7 1 SQL_C_CHAR 0,
               SQLGetData 7 1 SQL_C_SLONG 0]\<rparr>)"
  by (simp add: GetString_defs sample_defs reply_def record_call_def long_call_def SMSD_Log_def Let_def)

text \<open>
  Claim C3, as the code has it. \<open>SMSDODBC_GetBool\<close> tells a failed numeric fetch by the
  value -1 that \<open>SMSDODBC_GetNumber\<close> returns. When the numeric fetch succeeds with a
  value other than -1, it returns whether that value is nonzero and makes no other call.
  Whenever \<open>SMSDODBC_GetNumber\<close> returns -1, because the fetch failed or because the
  column holds -1, and the string accessor returns, it returns what the boolean parser
  makes of the string fetched.
\<close>

theorem GetBool_by_sentinel:
  "(SQL_SUCCEEDED (ret (long_fetch X res field s)) \<and> out_long (long_fetch X res field s) \<noteq> - 1 \<longrightarrow>
      SMSDODBC_GetBool X res field s =
        Returns (out_long (long_fetch X res field s) \<noteq> 0, record_call (long_call res field) s)) \<and>
   (SMSDODBC_GetNumber X res field s = Returns (- 1, s1) \<and>
    SMSDODBC_GetString X res field s1 = Returns (charval, s2) \<longrightarrow>
      SMSDODBC_GetBool X res field s = Returns (GSM_StringToBool X (string_at s2 charval), s2))"
  by (simp add: SMSDODBC_GetBool_def SMSDODBC_GetNumber_def long_fetch_def long_call_def Let_def)

theorem GetBool_by_sentinel_witness:
  "(SQL_SUCCEEDED (ret (long_fetch (sample_externals good_driver) sample_result 0 sample_world)) \<and>
    out_long (long_fetch (sample_externals good_driver) sample_result 0 sample_world) \<noteq> - 1 \<and>
    returned (SMSDODBC_GetBool (sample_externals good_driver) sample_result 0 sample_world) = Some True) \<and>
   (returned (SMSDODBC_GetNumber (sample_externals minus_one_driver) sample_result 0 sample_world)
      = Some (- 1) \<and>
    returned (SMSDODBC_GetString (sample_externals minus_one_driver) sample_result 0
      (record_call (long_call sample_result 0) sample_world)) = Some (Some 0) \<and>
    returned (SMSDODBC_GetBool (sample_externals minus_one_driver) sample_result 0 sample_world)
      = Some False)"
proof -
  have "returned (SMSDODBC_GetBool (sample_externals good_driver) sample_result 0 sample_world) = Some True"
    using GetBool_by_sentinel [of "sample_externals good_driver" sample_result 0 sample_world]
    by (simp add: returned_def)
  moreover have "returned (SMSDODBC_GetBool (sample_externals minus_one_driver) sample_result 0 sample_world)
      = Some False"
    using GetBool_by_sentinel [of "sample_externals minus_one_driver" sample_result 0 sample_world,
        THEN conjunct2, THEN mp, OF conjI [OF GetNumber_minus_one_sample GetString_minus_one_sample]]
    by (simp add: returned_def string_at_def block_at_def cstring_def NUL_def sample_tokens_def)
  ultimately show ?thesis
    by (simp add: GetNumber_minus_one_sample GetString_minus_one_sample returned_def)
qed

text \<open>
  The claim as stated fails where the column holds -1: the numeric fetch succeeds with a
  nonzero value, yet the string is fetched as well and the answer is the parser's
  verdict on \<^verbatim>\<open>-1\<close>, here false.
\<close>

theorem GetBool_minus_one_counterexample:
  "SQL_SUCCEEDED (ret (long_fetch (sample_externals minus_one_driver) sample_result 0 sample_world)) \<and>
   out_long (long_fetch (sample_externals minus_one_driver) sample_result 0 sample_world) \<noteq> 0 \<and>
   returned (SMSDODBC_GetBool (sample_externals minus_one_driver) sample_result 0 sample_world)
     = Some False \<and>
   map_option calls
     (world_after (SMSDODBC_GetBool (sample_externals minus_one_driver) sample_result 0 sample_world))
     = Some [SQLGetData 7 1 SQL_C_CHAR 3, SQLGetData 7 1 SQL_C_CHAR 0, SQLGetData 7 1 SQL_C_SLONG 0]"
  by (simp add: SMSDODBC_GetBool_def GetNumber_minus_one_sample GetString_minus_one_sample
      returned_def world_after_def string_at_def block_at_def cstring_def NUL_def sample_tokens_def)

section \<open>SMSDODBC_SeqID\<close>

lemma SeqID_calls_simps:
  "SeqID_calls X s (Suc 0) = [SQLAllocHandle SQL_HANDLE_STMT (dbc (Config s))] @ calls s"
  "SeqID_calls X s 2 =
     [SQLExecDirect (SeqID_stmt X s) ''SELECT @@IDENTITY'',
      SQLAllocHandle SQL_HANDLE_STMT (dbc (Config s))] @ calls s"
  "SeqID_calls X s 3 =
     [SQLFetch (SeqID_stmt X s), SQLExecDirect (SeqID_stmt X s) ''SELECT @@IDENTITY'',
      SQLAllocHandle SQL_HANDLE_STMT (dbc (Config s))] @ calls s"
  "SeqID_calls X s 4 =
     [SQLGetData (SeqID_stmt X s) 1 SQL_C_SLONG 0, SQLFetch (SeqID_stmt X s),
      SQLExecDirect (SeqID_stmt X s) ''SELECT @@IDENTITY'',
      SQLAllocHandle SQL_HANDLE_STMT (dbc (Config s))] @ calls s"
  by (simp_all add: SeqID_calls_def SeqID_stmt_def Let_def)

lemma SeqID_cases:
  "SMSDODBC_SeqID X hint s =
     (if SeqID_step_fails X s 1 then (0, s\<lparr>calls := SeqID_calls X s 1\<rparr>)
      else if SeqID_step_fails X s 2 then
        (0, s\<lparr>calls := SQLFreeHandle SQL_HANDLE_STMT (SeqID_stmt X s) # SeqID_calls X s 2\<rparr>)
      else if SeqID_step_fails X s 3 then
        (0, s\<lparr>calls := SQLFreeHandle SQL_HANDLE_STMT (SeqID_stmt X s) # SeqID_calls X s 3\<rparr>)
      else if SeqID_step_fails X s 4 then
        (0, s\<lparr>calls := SQLFreeHandle SQL_HANDLE_STMT (SeqID_stmt X s) # SeqID_calls X s 4\<rparr>)
      else (scast (out_long (driver X (SeqID_calls X s 4))),
            s\<lparr>calls := SQLFreeHandle SQL_HANDLE_STMT (SeqID_stmt X s) # SeqID_calls X s 4\<rparr>))"
  by (simp add: SMSDODBC_SeqID_def SeqID_step_fails_def SeqID_calls_simps SeqID_stmt_def reply_def
      record_call_def Let_def)

text \<open>
  Claim C8. \<open>SMSDODBC_SeqID\<close> does the same whatever its hint argument is; every
  statement it executes has the text \<^verbatim>\<open>SELECT @@IDENTITY\<close>; it returns 0 when any of its
  four steps fails; when the allocation of the statement handle succeeds, the last call it
  makes frees that handle, and when the allocation fails it makes no other call. It
  changes nothing but the call history.
\<close>

theorem SeqID_fixed_query_and_cleanup:
  "SMSDODBC_SeqID X hint s = SMSDODBC_SeqID X hint' s \<and>
   (\<forall>h q. SQLExecDirect h q \<in> set (new_calls s (snd (SMSDODBC_SeqID X hint s))) \<longrightarrow>
      q = ''SELECT @@IDENTITY'') \<and>
   ((\<exists>k \<in> {1, 2, 3, 4}. SeqID_step_fails X s k) \<longrightarrow> fst (SMSDODBC_SeqID X hint s) = 0) \<and>
   (\<not> SeqID_step_fails X s 1 \<longrightarrow>
      hd (new_calls s (snd (SMSDODBC_SeqID X hint s))) = SQLFreeHandle SQL_HANDLE_STMT (SeqID_stmt X s) \<and>
      SQLExecDirect (SeqID_stmt X s) ''SELECT @@IDENTITY''
        \<in> set (new_calls s (snd (SMSDODBC_SeqID X hint s)))) \<and>
   (SeqID_step_fails X s 1 \<longrightarrow>
      new_calls s (snd (SMSDODBC_SeqID X hint s)) = [SQLAllocHandle SQL_HANDLE_STMT (dbc (Config s))]) \<and>
   Config (snd (SMSDODBC_SeqID X hint s)) = Config s \<and>
   heap (snd (SMSDODBC_SeqID X hint s)) = heap s \<and>
   logs (snd (SMSDODBC_SeqID X hint s)) = logs s"
proof (intro conjI)
  show "SMSDODBC_SeqID X hint s = SMSDODBC_SeqID X hint' s"
    by (simp add: SMSDODBC_SeqID_def)
  show "\<forall>h q. SQLExecDirect h q \<in> set (new_calls s (snd (SMSDODBC_SeqID X hint s))) \<longrightarrow>
      q = ''SELECT @@IDENTITY''"
    by (auto simp: SeqID_cases SeqID_calls_simps new_calls_def)
  show "(\<exists>k \<in> {1, 2, 3, 4}. SeqID_step_fails X s k) \<longrightarrow> fst (SMSDODBC_SeqID X hint s) = 0"
    by (auto simp: SeqID_cases)
  show "\<not> SeqID_step_fails X s 1 \<longrightarrow>
      hd (new_calls s (snd (SMSDODBC_SeqID X hint s))) = SQLFreeHandle SQL_HANDLE_STMT (SeqID_stmt X s) \<and>
      SQLExecDirect (SeqID_stmt X s) ''SELECT @@IDENTITY''
        \<in> set (new_calls s (snd (SMSDODBC_SeqID X hint s)))"
    by (auto simp: SeqID_cases SeqID_calls_simps new_calls_def)
  show "SeqID_step_fails X s 1 \<longrightarrow>
      new_calls s (snd (SMSDODBC_SeqID X hint s)) = [SQLAllocHandle SQL_HANDLE_STMT (dbc (Config s))]"
    by (auto simp: SeqID_cases SeqID_calls_simps new_calls_def)
  show "Config (snd (SMSDODBC_SeqID X hint s)) = Config s"
    "heap (snd (SMSDODBC_SeqID X hint s)) = heap s"
    "logs (snd (SMSDODBC_SeqID X hint s)) = logs s"
    by (simp_all add: SeqID_cases)
qed

lemma SeqID_steps_sample:
  "\<not> SeqID_step_fails (sample_externals good_driver) sample_world 1"
  "SeqID_stmt (sample_externals good_driver) sample_world = 7"
  "SeqID_step_fails (sample_externals bad_driver) sample_world 1"
  "\<not> SeqID_step_fails (sample_externals (failing_driver is_fetch)) sample_world 1"
  "SeqID_step_fails (sample_externals (failing_driver is_fetch)) sample_world 3"
  "SeqID_stmt (sample_externals (failing_driver is_fetch)) sample_world = 7"
  by (simp_all add: SeqID_step_fails_def SeqID_calls_def SeqID_stmt_def reply_def Let_def
      good_driver_def bad_driver_def failing_driver_def is_fetch_def sample_reply_def)

theorem SeqID_fixed_query_and_cleanup_witness:
  "(\<not> SeqID_step_fails (sample_externals good_driver) sample_world 1 \<and>
    hd (new_calls sample_world (snd (SMSDODBC_SeqID (sample_externals good_driver) ''x'' sample_world)))
      = SQLFreeHandle SQL_HANDLE_STMT 7 \<and>
    SQLExecDirect 7 ''SELECT @@IDENTITY''
      \<in> set (new_calls sample_world (snd (SMSDODBC_SeqID (sample_externals good_driver) ''x'' sample_world)))) \<and>
   (SeqID_step_fails (sample_externals bad_driver) sample_world 1 \<and>
    fst (SMSDODBC_SeqID (sample_externals bad_driver) ''x'' sample_world) = 0 \<and>
    new_calls sample_world (snd (SMSDODBC_SeqID (sample_externals bad_driver) ''x'' sample_world))
      = [SQLAllocHandle SQL_HANDLE_STMT 0]) \<and>
   (SeqID_step_fails (sample_externals (failing_driver is_fetch)) sample_world 3 \<and>
    fst (SMSDODBC_SeqID (sample_externals (failing_driver is_fetch)) ''x'' sample_world) = 0 \<and>
    hd (new_calls sample_world
          (snd (SMSDODBC_SeqID (sample_externals (failing_driver is_fetch)) ''x'' sample_world)))
      = SQLFreeHandle SQL_HANDLE_STMT 7)"
proof -
  note good = SeqID_fixed_query_and_cleanup [of "sample_externals good_driver" "''x''" sample_world]
  note bad = SeqID_fixed_query_and_cleanup [of "sample_externals bad_driver" "''x''" sample_world]
  note nofetch =
    SeqID_fixed_query_and_cleanup [of "sample_externals (failing_driver is_fetch)" "''x''" sample_world]
  have "dbc (Config sample_world) = 0"
    by (simp add: sample_world_def)
  with good bad nofetch show ?thesis
    using SeqID_steps_sample by auto
qed

section \<open>SMSDODBC_FreeResult\<close>

text \<open>
  Claim C10. \<open>SMSDODBC_FreeResult\<close> makes one API call, the release of the statement
  handle of the result, and changes nothing else: the configuration with every slot of
  \<open>retstr\<close>, the heap and the log are what they were. So a pointer that
  \<open>SMSDODBC_GetString\<close> has returned for a field is, after \<open>SMSDODBC_FreeResult\<close>,
  still the content of the field's slot, still the address of an allocated block, and
  still leads to the same string.
\<close>

theorem FreeResult_frame:
  "Config (SMSDODBC_FreeResult X res s) = Config s \<and>
   heap (SMSDODBC_FreeResult X res s) = heap s \<and>
   logs (SMSDODBC_FreeResult X res s) = logs s \<and>
   calls (SMSDODBC_FreeResult X res s) = SQLFreeHandle SQL_HANDLE_STMT (odbc res) # calls s \<and>
   (SMSDODBC_GetString X res' field s0 = Returns (Some a, s) \<longrightarrow>
      retstr (Config (SMSDODBC_FreeResult X res s)) ! unat field = Some a \<and>
      allocated (SMSDODBC_FreeResult X res s) a \<and>
      string_at (SMSDODBC_FreeResult X res s) (Some a) = string_at s (Some a))"
proof (intro conjI impI)
  assume "SMSDODBC_GetString X res' field s0 = Returns (Some a, s)"
  from GetString_pointer [OF this]
  show "retstr (Config (SMSDODBC_FreeResult X res s)) ! unat field = Some a"
    "allocated (SMSDODBC_FreeResult X res s) a"
    by (simp_all add: SMSDODBC_FreeResult_def)
qed (simp_all add: SMSDODBC_FreeResult_def string_at_def)

theorem FreeResult_frame_witness:
  "returned (SMSDODBC_GetString (sample_externals good_driver) sample_result 1 sample_world)
     = Some (Some 0) \<and>
   (\<exists>s. world_after (SMSDODBC_GetString (sample_externals good_driver) sample_result 1 sample_world)
          = Some s \<and>
        retstr (Config (SMSDODBC_FreeResult (sample_externals good_driver) sample_result s)) ! 1 = Some 0 \<and>
        allocated (SMSDODBC_FreeResult (sample_externals good_driver) sample_result s) 0 \<and>
        string_at (SMSDODBC_FreeResult (sample_externals good_driver) sample_result s) (Some 0)
          = Some ''Alice'')"
  using FreeResult_frame [of "sample_externals good_driver" sample_result _ sample_result 1
      sample_world 0, THEN conjunct2, THEN conjunct2, THEN conjunct2, THEN conjunct2, THEN mp,
      OF GetString_good_sample]
  by (simp add: GetString_good_sample returned_def world_after_def string_at_def block_at_def
      cstring_def NUL_def)

section \<open>SMSDODBC_Connect and SMSDODBC_Free\<close>

lemma Connect_good_sample:
  "SMSDODBC_Connect (sample_externals good_driver) sample_world =
     Returns (SQL_OK,
       \<lparr>Config = \<lparr>host = ''host1'', user = ''user1'', password = ''pw1'', env = 7, dbc = 7,
                   retstr = [None, None, None]\<rparr>,
        heap = [], logs = [],
        calls = [SQLConnect 7 ''host1'' ''user1'' ''pw1'', SQLAllocHandle SQL_HANDLE_DBC 7,
                 SQLSetEnvAttr 7, SQLAllocHandle SQL_HANDLE_ENV 0]\<rparr>)"
  by (simp add: SMSDODBC_Connect_def Connect_handles_def Connect_loop.simps set_retstr_def
      sample_defs reply_def record_call_def SQL_NULL_HANDLE_def Let_def)

text \<open>
  Claim C9, for an array of \<^verbatim>\<open>SMSD_ODBC_MAX_RETURN_STRINGS\<close> slots. The first loop of
  \<open>SMSDODBC_Connect\<close> leaves every slot empty and makes no API call; the rest of the
  function starts from that world, and whenever \<open>SMSDODBC_Connect\<close> returns, every slot
  is empty. When the slots own their buffers, \<open>SMSDODBC_Free\<close> returns, every slot is empty
  afterwards, and every block a slot pointed to has been released.
\<close>

theorem retstr_empty_after_Connect_and_Free:
  "(retstr_declared X s \<longrightarrow>
      (\<exists>s0. Connect_loop X 0 s = Returns s0 \<and> all_empty s0 \<and> retstr_declared X s0 \<and>
         calls s0 = calls s \<and> SMSDODBC_Connect X s = Connect_handles X s0) \<and>
      (\<forall>e s'. SMSDODBC_Connect X s = Returns (e, s') \<longrightarrow> all_empty s' \<and> retstr_declared X s')) \<and>
   (retstr_declared X s \<and> slots_owned s \<longrightarrow>
      (\<exists>s'. SMSDODBC_Free X s = Returns s' \<and> all_empty s' \<and> retstr_declared X s' \<and>
         list_all (\<lambda>a. \<not> allocated s' a) (buffers (retstr (Config s)))))"
proof (intro conjI impI)
  assume d: "retstr_declared X s"
  let ?s0 = "s\<lparr>Config := (Config s)\<lparr>retstr := replicate (MAX_RETURN_STRINGS X) None\<rparr>\<rparr>"
  have loop: "Connect_loop X 0 s = Returns ?s0"
    using Connect_loop_slots [of 0 X s] d by (simp add: retstr_declared_def)
  have e0: "all_empty ?s0" "retstr_declared X ?s0" "calls ?s0 = calls s"
    by (simp_all add: all_empty_def retstr_declared_def)
  show "\<exists>s0. Connect_loop X 0 s = Returns s0 \<and> all_empty s0 \<and> retstr_declared X s0 \<and>
      calls s0 = calls s \<and> SMSDODBC_Connect X s = Connect_handles X s0"
    using loop e0 by (intro exI [of _ ?s0]) (simp add: SMSDODBC_Connect_def)
  show "\<forall>e s'. SMSDODBC_Connect X s = Returns (e, s') \<longrightarrow> all_empty s' \<and> retstr_declared X s'"
  proof (intro allI impI)
    fix e s'
    assume "SMSDODBC_Connect X s = Returns (e, s')"
    with loop have "Connect_handles X ?s0 = Returns (e, s')"
      by (simp add: SMSDODBC_Connect_def)
    from Connect_handles_slots [OF this] e0(1,2)
    show "all_empty s' \<and> retstr_declared X s'"
      by (simp add: all_empty_def retstr_declared_def)
  qed
next
  assume a: "retstr_declared X s \<and> slots_owned s"
  let ?ps = "retstr (Config s)"
  let ?s2 = "record_call (SQLFreeHandle SQL_HANDLE_ENV (env (Config s)))
               (record_call (SQLDisconnect (dbc (Config s))) s)"
  let ?s' = "?s2\<lparr>Config := (Config ?s2)\<lparr>retstr := replicate (MAX_RETURN_STRINGS X) None\<rparr>,
                 heap := fold (\<lambda>a h. h[a := None]) (buffers ?ps) (heap ?s2)\<rparr>"
  have "Free_loop X 0 ?s2 = Returns ?s'"
    using Free_loop_slots [of 0 X ?s2] a
    by (simp add: retstr_declared_def slots_owned_def)
  then have free: "SMSDODBC_Free X s = Returns ?s'"
    by (simp add: SMSDODBC_Free_def Let_def)
  have "\<not> allocated ?s' b" if "b \<in> set (buffers ?ps)" for b
  proof -
    from a that have "allocated s b"
      by (simp add: slots_owned_def list_all_iff)
    then have "b < length (heap s)"
      by (simp add: allocated_def block_at_def split: if_splits)
    with that show ?thesis
      by (simp add: allocated_def block_at_def nth_release)
  qed
  then have "list_all (\<lambda>a. \<not> allocated ?s' a) (buffers ?ps)"
    by (simp add: list_all_iff)
  moreover have "all_empty ?s'" "retstr_declared X ?s'"
    by (simp_all add: all_empty_def retstr_declared_def)
  ultimately show "\<exists>s'. SMSDODBC_Free X s = Returns s' \<and> all_empty s' \<and> retstr_declared X s' \<and>
      list_all (\<lambda>a. \<not> allocated s' a) (buffers (retstr (Config s)))"
    using free by blast
qed

theorem retstr_empty_after_Connect_and_Free_witness:
  "retstr_declared (sample_externals good_driver) sample_world \<and>
   (\<exists>s'. SMSDODBC_Connect (sample_externals good_driver) sample_world = Returns (SQL_OK, s') \<and>
      all_empty s') \<and>
   retstr_declared (sample_externals good_driver) sample_allocated \<and>
   slots_owned sample_allocated \<and>
   (\<exists>s'. SMSDODBC_Free (sample_externals good_driver) sample_allocated = Returns s' \<and>
      all_empty s' \<and> \<not> allocated s' 0 \<and> \<not> allocated s' 1)"
proof -
  have d: "retstr_declared (sample_externals good_driver) sample_world"
    by (simp add: retstr_declared_def sample_world_def)
  have o: "retstr_declared (sample_externals good_driver) sample_allocated \<and>
      slots_owned sample_allocated"
    by (simp add: retstr_declared_def slots_owned_def allocated_def block_at_def
        sample_allocated_def sample_world_def)
  have b: "buffers (retstr (Config sample_allocated)) = [1, 0]"
    by (simp add: sample_allocated_def sample_world_def)
  note inst = retstr_empty_after_Connect_and_Free [of "sample_externals good_driver"]
  from inst [of sample_world, THEN conjunct1, THEN mp, OF d, THEN conjunct2] Connect_good_sample
  have "\<exists>s'. SMSDODBC_Connect (sample_externals good_driver) sample_world = Returns (SQL_OK, s') \<and>
      all_empty s'"
    by simp
  moreover from inst [of sample_allocated, THEN conjunct2, THEN mp, OF o] b
  have "\<exists>s'. SMSDODBC_Free (sample_externals good_driver) sample_allocated = Returns s' \<and>
      all_empty s' \<and> \<not> allocated s' 0 \<and> \<not> allocated s' 1"
    by auto
  ultimately show ?thesis using d o by simp
qed

text \<open>
  Were the array declared with one slot more, the last index that the guard of
  \<open>SMSDODBC_GetString\<close> admits, neither loop would reach that slot: \<open>SMSDODBC_Connect\<close>
  would leave it as it finds it, and \<open>SMSDODBC_Free\<close> would leave a buffer held there in
  place and allocated.
\<close>

lemma slot_beyond_the_loops:
  assumes len: "length (retstr (Config s)) = MAX_RETURN_STRINGS X + 1"
  shows "\<exists>s0. Connect_loop X 0 s = Returns s0 \<and>
      retstr (Config s0) ! MAX_RETURN_STRINGS X = retstr (Config s) ! MAX_RETURN_STRINGS X"
    and "slots_owned s \<Longrightarrow> retstr (Config s) ! MAX_RETURN_STRINGS X = Some a \<Longrightarrow>
      \<exists>s'. SMSDODBC_Free X s = Returns s' \<and>
        retstr (Config s') ! MAX_RETURN_STRINGS X = Some a \<and> allocated s' a"
proof -
  let ?n = "MAX_RETURN_STRINGS X"
  let ?ps = "retstr (Config s)"
  have n: "?n \<le> length ?ps"
    using len by simp
  show "\<exists>s0. Connect_loop X 0 s = Returns s0 \<and> retstr (Config s0) ! ?n = ?ps ! ?n"
    using Connect_loop_slots [of 0 X s] n len by (simp add: nth_append)
  assume own: "slots_owned s" and last: "?ps ! ?n = Some a"
  let ?s2 = "record_call (SQLFreeHandle SQL_HANDLE_ENV (env (Config s)))
               (record_call (SQLDisconnect (dbc (Config s))) s)"
  have split: "buffers ?ps = buffers (take ?n ?ps) @ buffers (drop ?n ?ps)"
    using buffers_append [of "take ?n ?ps" "drop ?n ?ps"] by simp
  have "drop ?n ?ps = [Some a]"
    using len last Cons_nth_drop_Suc [of ?n ?ps] by simp
  with split have B: "buffers ?ps = buffers (take ?n ?ps) @ [a]"
    by simp
  from own B have d: "distinct (buffers (take ?n ?ps))" and nin: "a \<notin> set (buffers (take ?n ?ps))"
    and al: "list_all (allocated s) (buffers (take ?n ?ps))" and a: "allocated s a"
    by (simp_all add: slots_owned_def)
  let ?s' = "?s2\<lparr>Config := (Config ?s2)\<lparr>retstr := replicate ?n None @ drop ?n ?ps\<rparr>,
                 heap := fold (\<lambda>a h. h[a := None]) (buffers (take ?n ?ps)) (heap ?s2)\<rparr>"
  have "Free_loop X 0 ?s2 = Returns ?s'"
    using Free_loop_slots [of 0 X ?s2] n d al by simp
  then have "SMSDODBC_Free X s = Returns ?s'"
    by (simp add: SMSDODBC_Free_def Let_def)
  moreover have "retstr (Config ?s') ! ?n = Some a"
    using last n by (simp add: nth_append)
  moreover have "allocated ?s' a"
    using a nin allocated_lt [OF a] by (simp add: allocated_def block_at_def nth_release)
  ultimately show "\<exists>s'. SMSDODBC_Free X s = Returns s' \<and>
      retstr (Config s') ! ?n = Some a \<and> allocated s' a"
    by blast
qed

section \<open>SMSDODBC_QuoteString\<close>

text \<open>
  Claim C4. When the allocator grants the buffer, \<open>SMSDODBC_QuoteString\<close> returns the
  address of a block that was not allocated before; the string there is the input string
  in double quotes with a backslash before each of its double quotes and backslashes;
  no write leaves the buffer and no other block changes; and unquoting that string gives
  the input string back.
\<close>

theorem QuoteString_round_trip:
  "malloc_ok X (length (heap s)) (strlen string * 2 + 3) \<Longrightarrow>
   \<exists>a s'. SMSDODBC_QuoteString X string s = Returns (Some a, s') \<and>
     \<not> allocated s a \<and> allocated s' a \<and>
     string_at s' (Some a) = Some (quoted (cstring string)) \<and>
     unquote (quoted (cstring string)) = Some (cstring string) \<and>
     (\<forall>b. allocated s b \<longrightarrow> block_at s' b = block_at s b) \<and>
     Config s' = Config s \<and> logs s' = logs s \<and> calls s' = calls s"
proof -
  assume ok: "malloc_ok X (length (heap s)) (strlen string * 2 + 3)"
  let ?a = "length (heap s)"
  let ?buf = "replicate (strlen string * 2 + 3) NUL"
  let ?s1 = "s\<lparr>heap := heap s @ [Some ?buf]\<rparr>"
  from QuoteString_fill_result [of ?buf string] obtain rest where
    fill: "QuoteString_fill string ?buf = Some (quoted (cstring string) @ NUL # rest)"
    by auto
  let ?s' = "?s1\<lparr>heap := (heap ?s1)[?a := Some (quoted (cstring string) @ NUL # rest)]\<rparr>"
  have "SMSDODBC_QuoteString X string s = Returns (Some ?a, ?s')"
    using ok fill by (simp add: SMSDODBC_QuoteString_def c_malloc_def block_at_def)
  moreover have "\<not> allocated s ?a" "allocated ?s' ?a"
    by (simp_all add: allocated_def block_at_def)
  moreover have "string_at ?s' (Some ?a) = Some (quoted (cstring string))"
    by (simp add: string_at_def block_at_def cstring_quoted)
  moreover have "\<forall>b. allocated s b \<longrightarrow> block_at ?s' b = block_at s b"
    by (auto simp: allocated_def block_at_def nth_append split: if_splits)
  ultimately show ?thesis
    using unquote_quoted [of "cstring string"] by (intro exI [of _ ?a] exI [of _ ?s']) simp
qed

theorem QuoteString_round_trip_witness:
  "malloc_ok (sample_externals good_driver) (length (heap sample_world))
     (strlen [CHR ''a'', CHR 0x22, CHR 0x5C, CHR ''b'', CHR 0x00, CHR ''c''] * 2 + 3) \<and>
   (\<exists>a s'. SMSDODBC_QuoteString (sample_externals good_driver)
        [CHR ''a'', CHR 0x22, CHR 0x5C, CHR ''b'', CHR 0x00, CHR ''c''] sample_world = Returns (Some a, s') \<and>
      string_at s' (Some a) = Some [CHR 0x22, CHR ''a'', CHR 0x5C, CHR 0x22, CHR 0x5C, CHR 0x5C, CHR ''b'', CHR 0x22] \<and>
      unquote [CHR 0x22, CHR ''a'', CHR 0x5C, CHR 0x22, CHR 0x5C, CHR 0x5C, CHR ''b'', CHR 0x22]
        = Some [CHR ''a'', CHR 0x22, CHR 0x5C, CHR ''b''])"
proof -
  have ok: "malloc_ok (sample_externals good_driver) (length (heap sample_world))
     (strlen [CHR ''a'', CHR 0x22, CHR 0x5C, CHR ''b'', CHR 0x00, CHR ''c''] * 2 + 3)"
    by simp
  have c: "cstring [CHR ''a'', CHR 0x22, CHR 0x5C, CHR ''b'', CHR 0x00, CHR ''c'']
      = [CHR ''a'', CHR 0x22, CHR 0x5C, CHR ''b'']"
    by (simp add: cstring_def NUL_def)
  have q: "quoted [CHR ''a'', CHR 0x22, CHR 0x5C, CHR ''b'']
      = [CHR 0x22, CHR ''a'', CHR 0x5C, CHR 0x22, CHR 0x5C, CHR 0x5C, CHR ''b'', CHR 0x22]"
    by (simp add: quoted_def escape_def)
  from QuoteString_round_trip [OF ok] show ?thesis
    unfolding c q using ok by blast
qed

text \<open>The function does not check what \<^verbatim>\<open>malloc\<close> returns.\<close>

lemma QuoteString_without_memory:
  "\<not> malloc_ok X (length (heap s)) (strlen string * 2 + 3) \<Longrightarrow>
   SMSDODBC_QuoteString X string s = Undefined"
  by (simp add: SMSDODBC_QuoteString_def c_malloc_def)

section \<open>SMSDODBC_GetDate\<close>

lemma GetDate_outcomes:
  "(SQL_SUCCEEDED (ret (reply X (SQLGetData (odbc res) (ucast (field + 1)) SQL_C_TYPE_TIMESTAMP 0) s)) \<longrightarrow>
      SMSDODBC_GetDate X res field s =
        Returns (mktime X
          ((tm_of_timestamp
              (out_timestamp (reply X (SQLGetData (odbc res) (ucast (field + 1)) SQL_C_TYPE_TIMESTAMP 0) s))
              (case daylight X of Some d \<Rightarrow> d | None \<Rightarrow> - 1))
           \<lparr>tm_year := sint (year (out_timestamp
               (reply X (SQLGetData (odbc res) (ucast (field + 1)) SQL_C_TYPE_TIMESTAMP 0) s))),
             tm_mon := uint (month (out_timestamp
               (reply X (SQLGetData (odbc res) (ucast (field + 1)) SQL_C_TYPE_TIMESTAMP 0) s)))\<rparr>),
          record_call (SQLGetData (odbc res) (ucast (field + 1)) SQL_C_TYPE_TIMESTAMP 0) s)) \<and>
   (\<not> SQL_SUCCEEDED (ret (reply X (SQLGetData (odbc res) (ucast (field + 1)) SQL_C_TYPE_TIMESTAMP 0) s)) \<and>
    diag_finite X SQL_HANDLE_STMT (odbc res)
      (SQLGetData (odbc res) (ucast (field + 1)) SQL_C_TYPE_TIMESTAMP 0 # calls s) \<longrightarrow>
      (\<exists>s'. SMSDODBC_GetDate X res field s = Returns (- 1, s')))"
proof (intro conjI impI)
  assume "SQL_SUCCEEDED (ret (reply X (SQLGetData (odbc res) (ucast (field + 1)) SQL_C_TYPE_TIMESTAMP 0) s))"
  then show "SMSDODBC_GetDate X res field s =
        Returns (mktime X
          ((tm_of_timestamp
              (out_timestamp (reply X (SQLGetData (odbc res) (ucast (field + 1)) SQL_C_TYPE_TIMESTAMP 0) s))
              (case daylight X of Some d \<Rightarrow> d | None \<Rightarrow> - 1))
           \<lparr>tm_year := sint (year (out_timestamp
               (reply X (SQLGetData (odbc res) (ucast (field + 1)) SQL_C_TYPE_TIMESTAMP 0) s))),
             tm_mon := uint (month (out_timestamp
               (reply X (SQLGetData (odbc res) (ucast (field + 1)) SQL_C_TYPE_TIMESTAMP 0) s)))\<rparr>),
          record_call (SQLGetData (odbc res) (ucast (field + 1)) SQL_C_TYPE_TIMESTAMP 0) s)"
    by (simp add: SMSDODBC_GetDate_def tm_of_timestamp_def Let_def)
next
  assume a: "\<not> SQL_SUCCEEDED (ret (reply X (SQLGetData (odbc res) (ucast (field + 1)) SQL_C_TYPE_TIMESTAMP 0) s)) \<and>
    diag_finite X SQL_HANDLE_STMT (odbc res)
      (SQLGetData (odbc res) (ucast (field + 1)) SQL_C_TYPE_TIMESTAMP 0 # calls s)"
  then have "diag_finite X SQL_HANDLE_STMT (odbc res)
      (calls (record_call (SQLGetData (odbc res) (ucast (field + 1)) SQL_C_TYPE_TIMESTAMP 0) s))"
    by simp
  from log_and_return_returns [OF this, of "''SQLGetData(timestamp) failed''" "- 1"] a
  show "\<exists>s'. SMSDODBC_GetDate X res field s = Returns (- 1, s')"
    by (auto simp: SMSDODBC_GetDate_def Let_def)
qed

text \<open>
  Claim C6 at the timestamp 2011-03-15 10:30:00, in a process whose time zone is UTC. The
  broken-down time that denotes these calendar fields converts to 1300185000.
  \<open>SMSDODBC_GetDate\<close> copies the year and the month of the timestamp into \<^verbatim>\<open>tm_year\<close>
  and \<^verbatim>\<open>tm_mon\<close> as they are, which \<^verbatim>\<open>mktime\<close> reads as the year 3911 and the
  month of April: it returns 61261007400.
\<close>

theorem GetDate_year_and_month_unshifted:
  "out_timestamp (reply (sample_externals good_driver)
      (SQLGetData 7 1 SQL_C_TYPE_TIMESTAMP 0) sample_world)
     = \<lparr>year = 2011, month = 3, day = 15, hour = 10, minute = 30, second = 0, fraction = 0\<rparr> \<and>
   mktime_utc (tm_of_timestamp
      \<lparr>year = 2011, month = 3, day = 15, hour = 10, minute = 30, second = 0, fraction = 0\<rparr> (- 1))
     = 1300185000 \<and>
   returned (SMSDODBC_GetDate (sample_externals good_driver) sample_result 0 sample_world)
     = Some 61261007400 \<and>
   61261007400 = mktime_utc \<lparr>tm_sec = 0, tm_min = 30, tm_hour = 10, tm_mday = 15, tm_mon = 3,
                               tm_year = 2011, tm_isdst = - 1\<rparr>"
  by (simp add: SMSDODBC_GetDate_def returned_def Let_def sample_reply_def tm_of_timestamp_def
      mktime_utc_def days_from_civil_def)

section \<open>Diagnostics on failure\<close>





lemma mute_driver_reply [simp]:
  "\<not> is_diag_call c \<Longrightarrow> reply (sample_externals mute_driver) c s = sample_reply\<lparr>ret := SQL_ERROR\<rparr>"
  by (cases c) (simp_all add: reply_def mute_driver_def is_diag_call_def)


text \<open>
  Two more branches return their failure value without logging: every failure in
  \<open>SMSDODBC_SeqID\<close>, which never logs, and a failed allocation of the statement handle in
  \<open>SMSDODBC_Query\<close>.
\<close>

lemma Query_allocation_failure:
  "\<not> SQL_SUCCEEDED (ret (reply X (SQLAllocHandle SQL_HANDLE_STMT (dbc (Config s))) s)) \<Longrightarrow>
   \<exists>res'. SMSDODBC_Query X query res s =
     Returns ((SQL_FAIL, res'), record_call (SQLAllocHandle SQL_HANDLE_STMT (dbc (Config s))) s)"
  by (simp add: SMSDODBC_Query_def Let_def)

end
